theory Spec2Isabelle
  imports Main "HOL-Library.Sublist" "HOL-Library.AList"
begin

section \<open>JavaScript strings\<close>

text \<open>
  The program is \<^verbatim>\<open>src/src/index.ts\<close>. A JavaScript string is a sequence of UTF-16 code
  units; here it is a \<^typ>\<open>string\<close> whose characters are the code units below 256. The white
  space of \<^verbatim>\<open>\s\<close> and of \<^verbatim>\<open>trim()\<close> in that range is TAB, LF, VT, FF, CR, SPACE and
  NBSP.
\<close>

definition is_ws :: "char \<Rightarrow> bool" where
  "is_ws c = (c \<in> set [CHR 0x09, CHR 0x0A, CHR 0x0B, CHR 0x0C, CHR 0x0D, CHR 0x20, CHR 0xA0])"

text \<open>\<^verbatim>\<open>s.startsWith(p)\<close>.\<close>

definition startsWith :: "string \<Rightarrow> string \<Rightarrow> bool" where
  "startsWith s p = prefix p s"

text \<open>\<^verbatim>\<open>s.includes(p)\<close>: \<open>p\<close> occurs somewhere in \<open>s\<close>.\<close>

fun str_includes :: "string \<Rightarrow> string \<Rightarrow> bool" where
  "str_includes [] p = (p = [])"
| "str_includes (c # cs) p = (prefix p (c # cs) \<or> str_includes cs p)"

text \<open>
  \<^verbatim>\<open>s.replace(pat, rep)\<close> with a string pattern: the first occurrence of \<open>pat\<close> is replaced,
  the rest of \<open>s\<close> is kept (the replacement strings of the program are empty, so no
  \<^verbatim>\<open>$\<close> pattern is involved).
\<close>

fun str_replace :: "string \<Rightarrow> string \<Rightarrow> string \<Rightarrow> string" where
  "str_replace [] pat rep = (if pat = [] then rep else [])"
| "str_replace (c # cs) pat rep =
     (if prefix pat (c # cs) then rep @ drop (length pat) (c # cs)
      else c # str_replace cs pat rep)"

text \<open>\<^verbatim>\<open>s.trim()\<close>: white space removed at both ends.\<close>

definition trim :: "string \<Rightarrow> string" where
  "trim s = rev (dropWhile is_ws (rev (dropWhile is_ws s)))"

section \<open>Style values and plain objects\<close>

text \<open>
  \<^verbatim>\<open>BaseStyles = Record<string, string | number | Record<string, string | number>>\<close>.
  Numbers are carried through unchanged by every function of the program, so their type
  is a parameter \<open>'n\<close>.
\<close>

datatype 'n scalar = ScalarString string | ScalarNumber 'n

datatype 'n style_value =
    VString string
  | VNumber 'n
  | VNested "(string \<times> 'n scalar) list"

text \<open>
  A plain JavaScript object is the list of its own enumerable string-keyed properties in
  the order \<^verbatim>\<open>Object.entries\<close> and \<^verbatim>\<open>Object.keys\<close> enumerate them: the keys that are
  array indices (canonical decimal numerals below \<open>2^32 - 1\<close>) in ascending numeric
  order, then the other keys in the order they were created.
\<close>

type_synonym 'v js_object = "(string \<times> 'v) list"

definition is_digit :: "char \<Rightarrow> bool" where
  "is_digit c = (c \<in> set ''0123456789'')"

text \<open>The value of a decimal digit, and the order of two decimal numerals without leading zeros.\<close>

definition digit_val :: "char \<Rightarrow> nat" where
  "digit_val c = length (takeWhile (\<lambda>d. d \<noteq> c) ''0123456789'')"

fun digits_less :: "string \<Rightarrow> string \<Rightarrow> bool" where
  "digits_less (x # xs) (y # ys) = (digit_val x < digit_val y \<or> (x = y \<and> digits_less xs ys))"
| "digits_less xs ys = False"

definition numeral_less :: "string \<Rightarrow> string \<Rightarrow> bool" where
  "numeral_less a b = (length a < length b \<or> (length a = length b \<and> digits_less a b))"

definition is_array_index :: "string \<Rightarrow> bool" where
  "is_array_index k =
     (k \<noteq> [] \<and> list_all is_digit k \<and> (k = ''0'' \<or> hd k \<noteq> CHR ''0'')
        \<and> numeral_less k ''4294967295'')"

fun obj_insert_index :: "string \<Rightarrow> 'v \<Rightarrow> 'v js_object \<Rightarrow> 'v js_object" where
  "obj_insert_index k v [] = [(k, v)]"
| "obj_insert_index k v (p # ps) =
     (if is_array_index (fst p) \<and> numeral_less (fst p) k then p # obj_insert_index k v ps
      else (k, v) # p # ps)"

text \<open>
  Defining an own property (what an object spread does for each copied entry): an
  existing key keeps its place and takes the new value, a new array-index key goes to its
  numeric place, any other new key goes last.
\<close>

definition obj_define :: "string \<Rightarrow> 'v \<Rightarrow> 'v js_object \<Rightarrow> 'v js_object" where
  "obj_define k v ps =
     (if k \<in> set (map fst ps) then AList.update k v ps
      else if is_array_index k then obj_insert_index k v ps
      else AList.update k v ps)"

text \<open>
  The assignment \<^verbatim>\<open>obj[k] = v\<close> on an object created by \<^verbatim>\<open>{}\<close>. It defines the own
  property \<open>k\<close>, with one exception of the language: for \<open>k = "__proto__"\<close> (and no own
  property of that name) the assignment runs the inherited \<^verbatim>\<open>__proto__\<close> setter of
  \<^verbatim>\<open>Object.prototype\<close>, which changes the prototype when \<open>v\<close> is an object and does
  nothing otherwise. In both cases no own property is created, so the entry is in neither
  \<^verbatim>\<open>Object.keys\<close> nor \<^verbatim>\<open>JSON.stringify\<close>.
\<close>

definition proto_key :: string where
  "proto_key = ''__proto__''"

definition obj_set :: "string \<Rightarrow> 'v \<Rightarrow> 'v js_object \<Rightarrow> 'v js_object" where
  "obj_set k v ps =
     (if k = proto_key \<and> k \<notin> set (map fst ps) then ps else obj_define k v ps)"

section \<open>Colour conversion and key cleaning\<close>

text \<open>
  \<^verbatim>\<open>formatHex\<close> belongs to the library culori, which is not part of the repository: it is a
  parameter. A call of it throws, returns \<^verbatim>\<open>undefined\<close>, or returns a string.
\<close>

datatype hex_outcome = Throws | Undefined | Hex string

text \<open>
  \<^verbatim>\<open>convertToHex\<close> (lines 187-194): \<^verbatim>\<open>try { const hex = formatHex(colorString);
  return hex || colorString } catch { return colorString }\<close>. The empty string is falsy.
\<close>

definition convertToHex :: "(string \<Rightarrow> hex_outcome) \<Rightarrow> string \<Rightarrow> string" where
  "convertToHex formatHex colorString =
     (case formatHex colorString of
        Throws \<Rightarrow> colorString
      | Undefined \<Rightarrow> colorString
      | Hex hex \<Rightarrow> if hex = [] then colorString else hex)"

text \<open>
  What culori documents of \<^verbatim>\<open>formatHex\<close>: a string it returns is \<open>#\<close> followed by
  hexadecimal digits.
\<close>

definition is_hex_digit :: "char \<Rightarrow> bool" where
  "is_hex_digit c = (c \<in> set ''0123456789abcdefABCDEF'')"

definition hex_string :: "string \<Rightarrow> bool" where
  "hex_string h = (case h of [] \<Rightarrow> False | c # ds \<Rightarrow> c = CHR ''#'' \<and> ds \<noteq> [] \<and> list_all is_hex_digit ds)"

definition hex_contract :: "(string \<Rightarrow> hex_outcome) \<Rightarrow> bool" where
  "hex_contract formatHex = (\<forall>x h. formatHex x = Hex h \<longrightarrow> hex_string h)"

text \<open>The key cleaning of \<^verbatim>\<open>convertStyles\<close> (lines 204-212).\<close>

definition cleanKey :: "string \<Rightarrow> string" where
  "cleanKey key =
     (if startsWith key ''--color-'' then str_replace key ''--color-'' []
      else if startsWith key ''--'' then str_replace key ''--'' []
      else key)"

text \<open>The test of lines 215-221 on a string value.\<close>

definition is_color_candidate :: "string \<Rightarrow> bool" where
  "is_color_candidate s =
     (str_includes s ''oklch('' \<or> str_includes s ''rgb('' \<or> str_includes s ''hsl(''
        \<or> str_includes s ''lch('')"

text \<open>The value stored by lines 215-225.\<close>

definition normalizeColor :: "(string \<Rightarrow> hex_outcome) \<Rightarrow> 'n style_value \<Rightarrow> 'n style_value" where
  "normalizeColor formatHex v =
     (case v of
        VString s \<Rightarrow> if is_color_candidate s then VString (convertToHex formatHex s) else v
      | _ \<Rightarrow> v)"

text \<open>
  \<^verbatim>\<open>convertStyles\<close> (lines 199-229): the entries of \<open>styles\<close> are visited in enumeration
  order, each one assigned into \<open>converted\<close>, which starts empty.
\<close>

definition convertStyles ::
    "(string \<Rightarrow> hex_outcome) \<Rightarrow> 'n style_value js_object \<Rightarrow> 'n style_value js_object" where
  "convertStyles formatHex styles =
     fold (\<lambda>(key, v) converted. obj_set (cleanKey key) (normalizeColor formatHex v) converted)
       styles []"

section \<open>Regular expressions\<close>

text \<open>
  The four regular expressions of the program are sequences of literals, character
  classes and quantified character classes, some of them captured. \<open>Rep\<close> is a quantified
  class, \<open>Cap\<close> a quantified class inside a capture group, \<open>Eos\<close> the anchor \<^verbatim>\<open>$\<close>
  (no \<^verbatim>\<open>m\<close> flag: the end of the input).
\<close>

datatype cls = Ws | AnyChar | OneOf string | NoneOf string

fun in_cls :: "cls \<Rightarrow> char \<Rightarrow> bool" where
  "in_cls Ws c = is_ws c"
| "in_cls AnyChar c = True"
| "in_cls (OneOf s) c = (c \<in> set s)"
| "in_cls (NoneOf s) c = (c \<notin> set s)"

datatype quant = Star | Plus | LazyStar | Opt

datatype item = Lit string | Chr cls | Rep cls quant | Cap cls quant | Eos

text \<open>
  The numbers of repetitions a quantifier tries, in the order the backtracking matcher
  tries them, when at most \<open>n\<close> characters of the class follow: a greedy quantifier
  starts from the most, a lazy one from the fewest.
\<close>

fun counts :: "quant \<Rightarrow> nat \<Rightarrow> nat list" where
  "counts Star n = rev [0..<Suc n]"
| "counts Plus n = rev [1..<Suc n]"
| "counts LazyStar n = [0..<Suc n]"
| "counts Opt n = rev [0..<Suc (min n 1)]"

fun first_some :: "('a \<Rightarrow> 'b option) \<Rightarrow> 'a list \<Rightarrow> 'b option" where
  "first_some f [] = None"
| "first_some f (x # xs) = (case f x of Some y \<Rightarrow> Some y | None \<Rightarrow> first_some f xs)"

text \<open>
  \<open>rmatch r s\<close>: the match of \<open>r\<close> that starts at the beginning of \<open>s\<close>, as the
  backtracking matcher of the language finds it: the captured texts in order and the
  input left after the match.
\<close>

fun rmatch :: "item list \<Rightarrow> string \<Rightarrow> (string list \<times> string) option" where
  "rmatch [] s = Some ([], s)"
| "rmatch (Lit l # r) s = (if prefix l s then rmatch r (drop (length l) s) else None)"
| "rmatch (Chr c # r) s =
     (case s of [] \<Rightarrow> None | x # xs \<Rightarrow> if in_cls c x then rmatch r xs else None)"
| "rmatch (Rep c q # r) s =
     first_some (\<lambda>k. rmatch r (drop k s)) (counts q (length (takeWhile (in_cls c) s)))"
| "rmatch (Cap c q # r) s =
     first_some
       (\<lambda>k. case rmatch r (drop k s) of
              None \<Rightarrow> None
            | Some (caps, rest) \<Rightarrow> Some (take k s # caps, rest))
       (counts q (length (takeWhile (in_cls c) s)))"
| "rmatch (Eos # r) s = (if s = [] then rmatch r s else None)"

text \<open>
  \<open>exec_from r s\<close>: what \<^verbatim>\<open>regex.exec\<close> finds in the input from \<^verbatim>\<open>lastIndex\<close> on, \<open>s\<close>
  being that part of the input: the match at the leftmost position that has one. The
  input left after the match is where the next \<^verbatim>\<open>exec\<close> of a \<^verbatim>\<open>g\<close> regex starts.
\<close>

fun exec_from :: "item list \<Rightarrow> string \<Rightarrow> (string list \<times> string) option" where
  "exec_from r [] = rmatch r []"
| "exec_from r (c # cs) =
     (case rmatch r (c # cs) of Some m \<Rightarrow> Some m | None \<Rightarrow> exec_from r cs)"

text \<open>
  \<^verbatim>\<open>s.split(regex)[0]\<close> for a regex that matches no empty string: the text before the
  leftmost match, the whole of \<open>s\<close> when there is none.
\<close>

fun before_first_match :: "item list \<Rightarrow> string \<Rightarrow> string" where
  "before_first_match r [] = []"
| "before_first_match r (c # cs) =
     (case rmatch r (c # cs) of Some m \<Rightarrow> [] | None \<Rightarrow> c # before_first_match r cs)"

text \<open>\<^verbatim>\<open>s.split(sep)\<close> for a separator of one character.\<close>

fun split_char :: "char \<Rightarrow> string \<Rightarrow> string list" where
  "split_char sep [] = [[]]"
| "split_char sep (c # cs) =
     (if c = sep then [] # split_char sep cs
      else case split_char sep cs of w # ws \<Rightarrow> (c # w) # ws | [] \<Rightarrow> [[c]])"

text \<open>\<^verbatim>\<open>[...new Set(xs)]\<close>: the elements in the order of their first occurrence.\<close>

definition set_spread :: "'a list \<Rightarrow> 'a list" where
  "set_spread xs = fold (\<lambda>x seen. if x \<in> set seen then seen else seen @ [x]) xs []"

definition quote :: cls where
  "quote = OneOf [CHR 0x22, CHR 0x27]"

text \<open>Every match of a regex that starts with a literal consumes input.\<close>

lemma first_some_SomeD: "first_some f ks = Some y \<Longrightarrow> \<exists>k\<in>set ks. f k = Some y"
  by (induction ks) (auto split: option.splits)

lemma rmatch_suffix: "rmatch r s = Some (caps, rest) \<Longrightarrow> suffix rest s"
proof (induction r s arbitrary: caps rest rule: rmatch.induct)
  case (1 s)
  then show ?case by simp
next
  case (2 l r s)
  then have "suffix rest (drop (length l) s)" by (simp split: if_splits)
  then show ?case using suffix_drop suffix_order.trans by blast
next
  case (3 c r s)
  then show ?case by (auto split: list.splits if_splits intro: suffix_ConsI)
next
  case (4 c q r s)
  from "4.prems" obtain k where "rmatch r (drop k s) = Some (caps, rest)"
    by (auto dest: first_some_SomeD)
  then have "suffix rest (drop k s)" by (rule "4.IH")
  then show ?case using suffix_drop suffix_order.trans by blast
next
  case (5 c q r s)
  from "5.prems" obtain k caps' where "rmatch r (drop k s) = Some (caps', rest)"
    by (auto dest!: first_some_SomeD split: option.splits)
  then have "suffix rest (drop k s)" by (rule "5.IH")
  then show ?case using suffix_drop suffix_order.trans by blast
next
  case (6 r s)
  then show ?case by (simp split: if_splits)
qed

lemma rmatch_Lit_shorter:
  assumes "rmatch (Lit l # r) s = Some (caps, rest)" and "l \<noteq> []"
  shows "length rest < length s"
proof -
  from assms(1) have p: "prefix l s" and m: "rmatch r (drop (length l) s) = Some (caps, rest)"
    by (simp_all split: if_splits)
  from m have "suffix rest (drop (length l) s)" by (rule rmatch_suffix)
  then have "length rest \<le> length s - length l"
    using suffix_length_le by fastforce
  moreover from assms(2) have "0 < length l" by simp
  moreover from p have "length l \<le> length s" by (rule prefix_length_le)
  ultimately show ?thesis by linarith
qed

lemma exec_from_Lit_shorter:
  "exec_from (Lit l # r) s = Some (caps, rest) \<Longrightarrow> l \<noteq> [] \<Longrightarrow> length rest < length s"
proof (induction s)
  case Nil
  then show ?case by (simp split: if_splits)
next
  case (Cons c cs)
  show ?case
  proof (cases "rmatch (Lit l # r) (c # cs)")
    case None
    with Cons have "length rest < length cs" by simp
    then show ?thesis by simp
  next
    case (Some m)
    with Cons.prems have "rmatch (Lit l # r) (c # cs) = Some (caps, rest)" by simp
    then show ?thesis using Cons.prems(2) by (rule rmatch_Lit_shorter)
  qed
qed

section \<open>Theme names referenced in CSS\<close>

text \<open>
  \<^verbatim>\<open>extractThemeNamesFromCss\<close> (lines 234-257). Its regex (line 238) is
  \<^verbatim>\<open>/@plugin\s+["']daisyui["']\s*\{[^}]*themes:\s*([^;]+);/gs\<close>.
\<close>

definition pluginRegex :: "item list" where
  "pluginRegex =
     [Lit ''@plugin'', Rep Ws Plus, Chr quote, Lit ''daisyui'', Chr quote, Rep Ws Star,
      Lit ''{'', Rep (NoneOf ''}'') Star, Lit ''themes:'', Rep Ws Star,
      Cap (NoneOf '';'') Plus, Lit '';'']"

text \<open>The regex \<^verbatim>\<open>/\s+--/\<close> of line 248.\<close>

definition flagRegex :: "item list" where
  "flagRegex = [Rep Ws Plus, Lit ''--'']"

text \<open>
  Lines 244-251: \<^verbatim>\<open>themesString.split(",").map((t) => t.trim().split(/\s+--/)[0].trim())
  .filter((t) => t.length > 0)\<close>.
\<close>

definition themes_of :: "string \<Rightarrow> string list" where
  "themes_of themesString =
     filter (\<lambda>t. 0 < length t)
       (map (\<lambda>t. trim (before_first_match flagRegex (trim t)))
          (split_char (CHR '','') themesString))"

text \<open>
  The loop of lines 241-254; \<open>css\<close> is the input from \<^verbatim>\<open>lastIndex\<close> on. The regex has one
  group, so a match has one captured text.
\<close>

function themeNames_loop :: "string \<Rightarrow> string list \<Rightarrow> string list" where
  "themeNames_loop css themeNames =
     (case exec_from pluginRegex css of
        None \<Rightarrow> themeNames
      | Some (caps, rest) \<Rightarrow>
          (case caps of
             [themesString] \<Rightarrow> themeNames_loop rest (themeNames @ themes_of themesString)
           | _ \<Rightarrow> themeNames))"
  by pat_completeness auto
termination
proof (relation "measure (\<lambda>(css, themeNames). length css)")
  show "wf (measure (\<lambda>(css, themeNames). length css))" by simp
next
  fix css :: string and themeNames :: "string list" and m caps rest themesString tl
  assume "exec_from pluginRegex css = Some m" and "(caps, rest) = m"
  then have "exec_from pluginRegex css = Some (caps, rest)" by simp
  then have "length rest < length css"
    unfolding pluginRegex_def by (rule exec_from_Lit_shorter) simp
  then show "((rest, themeNames @ themes_of themesString), css, themeNames)
        \<in> measure (\<lambda>(css, themeNames). length css)" by simp
qed

definition extractThemeNamesFromCss :: "string \<Rightarrow> string list" where
  "extractThemeNamesFromCss cssContent = set_spread (themeNames_loop cssContent [])"

section \<open>Inline themes in CSS\<close>

text \<open>\<^verbatim>\<open>interface CssThemeData { name: string; styles: BaseStyles }\<close>.\<close>

record 'n CssThemeData =
  name :: string
  styles :: "'n style_value js_object"

text \<open>
  \<^verbatim>\<open>extractInlineThemesFromCss\<close> (lines 262-311). Its regex (line 267) is
  \<^verbatim>\<open>/@plugin\s+["']daisyui\/theme["']\s*\{([\s\S]*?)\}/g\<close>, the regex of a property
  line (line 283) is \<^verbatim>\<open>/^([^:]+):\s*([^;]+);?\s*$/\<close>. That one has no \<^verbatim>\<open>g\<close> flag and
  starts with \<^verbatim>\<open>^\<close>, so \<^verbatim>\<open>trimmed.match\<close> is its match at the beginning of the line.
\<close>

definition themePluginRegex :: "item list" where
  "themePluginRegex =
     [Lit ''@plugin'', Rep Ws Plus, Chr quote, Lit ''daisyui/theme'', Chr quote, Rep Ws Star,
      Lit ''{'', Cap AnyChar LazyStar, Lit ''}'']"

definition propRegex :: "item list" where
  "propRegex =
     [Cap (NoneOf '':'') Plus, Lit '':'', Rep Ws Star, Cap (NoneOf '';'') Plus,
      Rep (OneOf '';'') Opt, Rep Ws Star, Eos]"

text \<open>
  The body of the loop over the lines (lines 278-299), on the pair of the locals
  \<^verbatim>\<open>styles\<close> and \<^verbatim>\<open>themeName\<close>; \<open>k\<close> is the local \<^verbatim>\<open>cleanKey\<close> of that loop.
\<close>

definition parse_line ::
    "string \<Rightarrow> 'n style_value js_object \<times> string \<Rightarrow> 'n style_value js_object \<times> string" where
  "parse_line line st =
     (let trimmed = trim line in
      if trimmed = [] \<or> startsWith trimmed ''//'' \<or> startsWith trimmed ''/*'' then st
      else case rmatch propRegex trimmed of
             Some ([key, val], rest) \<Rightarrow>
               (let k = trim key; cleanValue = trim val in
                if k = ''name'' then (fst st, cleanValue)
                else if startsWith k ''--'' then (obj_set k (VString cleanValue) (fst st), snd st)
                else if k = ''color-scheme''
                  then (obj_set ''color-scheme'' (VString cleanValue) (fst st), snd st)
                else st)
           | _ \<Rightarrow> st)"

text \<open>Lines 272-300: the locals after all lines of a block.\<close>

definition parse_block :: "string \<Rightarrow> 'n style_value js_object \<times> string" where
  "parse_block blockContent = fold parse_line (split_char (CHR 0x0A) blockContent) ([], [])"

text \<open>Lines 302-307: the block is pushed, or dropped without a word.\<close>

definition push_block ::
    "(string \<Rightarrow> hex_outcome) \<Rightarrow> string \<Rightarrow> 'n CssThemeData list \<Rightarrow> 'n CssThemeData list" where
  "push_block formatHex blockContent themes =
     (case parse_block blockContent of
        (raw, themeName) \<Rightarrow>
          if themeName \<noteq> [] \<and> 0 < length raw
          then themes @ [\<lparr>name = themeName, styles = convertStyles formatHex raw\<rparr>]
          else themes)"

function themes_loop ::
    "(string \<Rightarrow> hex_outcome) \<Rightarrow> string \<Rightarrow> 'n CssThemeData list \<Rightarrow> 'n CssThemeData list" where
  "themes_loop formatHex css themes =
     (case exec_from themePluginRegex css of
        None \<Rightarrow> themes
      | Some (caps, rest) \<Rightarrow>
          (case caps of
             [blockContent] \<Rightarrow> themes_loop formatHex rest (push_block formatHex blockContent themes)
           | _ \<Rightarrow> themes))"
  by pat_completeness auto
termination
proof (relation "measure (\<lambda>(formatHex, css, themes). length css)")
  show "wf (measure (\<lambda>(formatHex, css, themes). length css))" by simp
next
  fix formatHex :: "string \<Rightarrow> hex_outcome" and css :: string
    and themes :: "'n CssThemeData list" and m caps rest blockContent tl
  assume "exec_from themePluginRegex css = Some m" and "(caps, rest) = m"
  then have "exec_from themePluginRegex css = Some (caps, rest)" by simp
  then have "length rest < length css"
    unfolding themePluginRegex_def by (rule exec_from_Lit_shorter) simp
  then show "((formatHex, rest, push_block formatHex blockContent themes), formatHex, css, themes)
        \<in> measure (\<lambda>(formatHex, css, themes). length css)" by simp
qed

definition extractInlineThemesFromCss ::
    "(string \<Rightarrow> hex_outcome) \<Rightarrow> string \<Rightarrow> 'n CssThemeData list" where
  "extractInlineThemesFromCss formatHex cssContent = themes_loop formatHex cssContent []"

section \<open>Resolving a theme module\<close>

text \<open>
  \<^verbatim>\<open>extractThemeData\<close> (lines 333-463) reads its surroundings through Node: the working
  directory, \<^verbatim>\<open>path.join\<close>, the two resolutions of \<^verbatim>\<open>daisyui/package.json\<close> (from the
  working directory and from the script; \<open>None\<close> when the resolution throws),
  \<^verbatim>\<open>existsSync\<close>, and the dynamic \<^verbatim>\<open>import\<close>. They are the fields of the environment.

  An import throws or gives a module. The default export of a module is a function or
  not. A call of the function with \<^verbatim>\<open>{ addBase }\<close> either throws, or returns after it
  has called \<^verbatim>\<open>addBase\<close> with some style objects, in that order. The style objects
  are plain data, each given by its entries in enumeration order.
\<close>

datatype 'n theme_call = CallThrows | CallReturns "'n style_value js_object list"

datatype 'n default_export = NotAFunction | ThemeFunction "'n theme_call"

datatype 'n import_outcome = ImportThrows | Module "'n default_export"

record 'n node_env =
  process_cwd :: string
  path_join :: "string list \<Rightarrow> string"
  cwd_daisyui :: "string option"
  script_daisyui :: "string option"
  existsSync :: "string \<Rightarrow> bool"
  import_module :: "string \<Rightarrow> 'n import_outcome"

datatype js_error = Error string

text \<open>Lines 338-373.\<close>

definition cwdPaths :: "'n node_env \<Rightarrow> string \<Rightarrow> string list" where
  "cwdPaths env themeName =
     [path_join env [process_cwd env, ''node_modules'', ''daisyui'', ''theme'', themeName, ''index.js''],
      path_join env [process_cwd env, ''node_modules'', ''daisyui'', ''dist'', ''theme'', themeName, ''index.js''],
      path_join env [process_cwd env, ''node_modules'', ''daisyui'', ''src'', ''theming'', ''themes'', themeName @ ''.js''],
      path_join env [process_cwd env, ''node_modules'', ''daisyui'', ''dist'', ''themes'', themeName @ ''.js'']]"

text \<open>Lines 377-397.\<close>

definition parentPaths :: "'n node_env \<Rightarrow> string \<Rightarrow> string list" where
  "parentPaths env themeName =
     [path_join env [process_cwd env, ''..'', ''node_modules'', ''daisyui'', ''theme'', themeName, ''index.js''],
      path_join env [process_cwd env, ''..'', ''node_modules'', ''daisyui'', ''dist'', ''theme'', themeName, ''index.js'']]"

text \<open>Lines 401-421: nothing is pushed when the resolution throws.\<close>

definition resolvedPaths :: "'n node_env \<Rightarrow> string option \<Rightarrow> string \<Rightarrow> string list" where
  "resolvedPaths env daisyuiPath themeName =
     (case daisyuiPath of
        None \<Rightarrow> []
      | Some d \<Rightarrow>
          [path_join env [d, ''theme'', themeName, ''index.js''],
           path_join env [d, ''dist'', ''theme'', themeName, ''index.js''],
           path_join env [d, ''src'', ''theming'', ''themes'', themeName @ ''.js''],
           path_join env [d, ''dist'', ''themes'', themeName @ ''.js'']])"

definition allPossiblePaths :: "'n node_env \<Rightarrow> string \<Rightarrow> string list" where
  "allPossiblePaths env themeName =
     cwdPaths env themeName @ parentPaths env themeName
       @ resolvedPaths env (cwd_daisyui env) themeName
       @ resolvedPaths env (script_daisyui env) themeName"

text \<open>Lines 424-425.\<close>

definition existingPaths :: "'n node_env \<Rightarrow> string \<Rightarrow> string list" where
  "existingPaths env themeName =
     filter (existsSync env) (set_spread (allPossiblePaths env themeName))"

text \<open>\<^verbatim>\<open>{ ...extractedStyles, ...base }\<close> (line 445).\<close>

definition spread_merge :: "'v js_object \<Rightarrow> 'v js_object \<Rightarrow> 'v js_object" where
  "spread_merge extractedStyles base =
     fold (\<lambda>(k, v) obj. obj_define k v obj) (extractedStyles @ base) []"

text \<open>
  The loop of lines 428-458 over the paths still to try. The result is the list of the
  modules imported, in order, and the converted styles of the first path whose module
  gave some; \<open>None\<close> when the loop ends without a \<^verbatim>\<open>return\<close>.
\<close>

fun try_paths ::
    "'n node_env \<Rightarrow> (string \<Rightarrow> hex_outcome) \<Rightarrow> string list
       \<Rightarrow> string list \<times> 'n style_value js_object option" where
  "try_paths env formatHex [] = ([], None)"
| "try_paths env formatHex (themePath # paths) =
     (case import_module env (''file://'' @ themePath) of
        Module (ThemeFunction (CallReturns bases)) \<Rightarrow>
          ([themePath], Some (convertStyles formatHex (fold (\<lambda>base extractedStyles. spread_merge extractedStyles base) bases [])))
      | _ \<Rightarrow>
          (case try_paths env formatHex paths of
             (imported, r) \<Rightarrow> (themePath # imported, r)))"

text \<open>The error of lines 460-462.\<close>

definition not_found :: "string \<Rightarrow> js_error" where
  "not_found themeName =
     Error (''Could not import theme '' @ [CHR 0x27] @ themeName @ [CHR 0x27]
              @ '' from any known path in node_modules'')"

definition extractThemeData ::
    "'n node_env \<Rightarrow> (string \<Rightarrow> hex_outcome) \<Rightarrow> string
       \<Rightarrow> string list \<times> (js_error + 'n style_value js_object)" where
  "extractThemeData env formatHex themeName =
     (case try_paths env formatHex (existingPaths env themeName) of
        (imported, Some convertedStyles) \<Rightarrow> (imported, Inr convertedStyles)
      | (imported, None) \<Rightarrow> (imported, Inl (not_found themeName)))"

section \<open>The run\<close>

text \<open>\<^verbatim>\<open>interface ThemeError { theme: string; error: string }\<close>.\<close>

record ThemeError =
  theme :: string
  error :: string

text \<open>\<^verbatim>\<open>getErrorMessage\<close> (lines 67-72) on an \<^verbatim>\<open>Error\<close>.\<close>

fun getErrorMessage :: "js_error \<Rightarrow> string" where
  "getErrorMessage (Error message) = message"

text \<open>
  \<^verbatim>\<open>readCssFile\<close> (lines 316-328); the file is \<open>None\<close> when \<^verbatim>\<open>existsSync(cssPath)\<close> is
  false, else its content.
\<close>

definition readCssFile ::
    "(string \<Rightarrow> hex_outcome) \<Rightarrow> string \<Rightarrow> string option
       \<Rightarrow> js_error + (string list \<times> 'n CssThemeData list)" where
  "readCssFile formatHex cssPath file =
     (case file of
        None \<Rightarrow> Inl (Error (''CSS file not found: '' @ cssPath))
      | Some cssContent \<Rightarrow>
          Inr (extractThemeNamesFromCss cssContent, extractInlineThemesFromCss formatHex cssContent))"

text \<open>
  Lines 473-512 of \<^verbatim>\<open>main\<close>, after the file was read: the names to process, and the
  \<^verbatim>\<open>Map\<close> from the name of an inline theme to its styles.
\<close>

definition merge_names :: "string list \<Rightarrow> string list \<Rightarrow> 'n CssThemeData list \<Rightarrow> string list" where
  "merge_names themes themeNames inlineThemes =
     (let allThemes = themes;
          allThemes = (if 0 < length themeNames then set_spread (allThemes @ themeNames)
                       else allThemes);
          allThemes = (if 0 < length inlineThemes then set_spread (allThemes @ map name inlineThemes)
                       else allThemes)
      in allThemes)"

definition inline_map :: "'n CssThemeData list \<Rightarrow> (string \<rightharpoonup> 'n style_value js_object)" where
  "inline_map inlineThemes = fold (\<lambda>t m. m(name t \<mapsto> styles t)) inlineThemes Map.empty"

text \<open>
  The state of the loop of lines 536-556: \<^verbatim>\<open>result\<close>, \<^verbatim>\<open>errors\<close>, and the names
  \<^verbatim>\<open>extractThemeData\<close> was called with so far.
\<close>

record 'n run_state =
  result :: "'n style_value js_object js_object"
  errors :: "ThemeError list"
  resolved :: "string list"

definition process_theme ::
    "(string \<Rightarrow> js_error + 'n style_value js_object) \<Rightarrow> (string \<rightharpoonup> 'n style_value js_object)
       \<Rightarrow> string \<Rightarrow> 'n run_state \<Rightarrow> 'n run_state" where
  "process_theme extractTheme inlineThemeMap t st =
     (case inlineThemeMap t of
        Some inlineStyles \<Rightarrow> st\<lparr>result := obj_set t inlineStyles (result st)\<rparr>
      | None \<Rightarrow>
          (case extractTheme t of
             Inr themeData \<Rightarrow>
               st\<lparr>result := obj_set t themeData (result st), resolved := resolved st @ [t]\<rparr>
           | Inl e \<Rightarrow>
               st\<lparr>errors := errors st @ [\<lparr>theme = t, error = getErrorMessage e\<rparr>],
                  resolved := resolved st @ [t]\<rparr>))"

definition process_themes ::
    "(string \<Rightarrow> js_error + 'n style_value js_object) \<Rightarrow> (string \<rightharpoonup> 'n style_value js_object)
       \<Rightarrow> string list \<Rightarrow> 'n run_state" where
  "process_themes extractTheme inlineThemeMap allThemes =
     fold (process_theme extractTheme inlineThemeMap) allThemes
       \<lparr>result = [], errors = [], resolved = []\<rparr>"

text \<open>
  \<^verbatim>\<open>main\<close> up to line 556, on the arguments as \<^verbatim>\<open>parseArguments\<close> returns them: \<open>themes\<close>
  is the explicit list, \<open>css\<close> is \<open>None\<close> when \<^verbatim>\<open>--read-css\<close> is off, else the file at
  \<^verbatim>\<open>cssPath\<close>. A CSS file that is not found ends the process with code 1 (line 519).
  The result is the list \<^verbatim>\<open>allThemes\<close> and the state after the loop. What follows line 556
  creates the output directory and writes \<^verbatim>\<open>result\<close> as JSON.
\<close>

datatype 'n outcome = Exit nat | Extracted "string list" "'n run_state"

definition main ::
    "(string \<Rightarrow> js_error + 'n style_value js_object) \<Rightarrow> (string \<Rightarrow> hex_outcome)
       \<Rightarrow> string list \<Rightarrow> string \<Rightarrow> string option option \<Rightarrow> 'n outcome" where
  "main extractTheme formatHex themes cssPath css =
     (case css of
        None \<Rightarrow> Extracted themes (process_themes extractTheme Map.empty themes)
      | Some file \<Rightarrow>
          (case readCssFile formatHex cssPath file of
             Inl e \<Rightarrow> Exit 1
           | Inr (themeNames, inlineThemes) \<Rightarrow>
               Extracted (merge_names themes themeNames inlineThemes)
                 (process_themes extractTheme (inline_map inlineThemes)
                    (merge_names themes themeNames inlineThemes))))"

section \<open>The words of the specification\<close>

text \<open>
  The four conventional sub-layouts of the specification under a directory, itself given
  by its path segments: the themed-directory layout, the distribution themed-directory
  layout, the flat theming-source layout and the flat distribution layout.
\<close>

definition spec_layouts :: "(string list \<Rightarrow> string) \<Rightarrow> string list \<Rightarrow> string \<Rightarrow> string list" where
  "spec_layouts pjoin base themeName =
     [pjoin (base @ [''theme'', themeName, ''index.js'']),
      pjoin (base @ [''dist'', ''theme'', themeName, ''index.js'']),
      pjoin (base @ [''src'', ''theming'', ''themes'', themeName @ ''.js'']),
      pjoin (base @ [''dist'', ''themes'', themeName @ ''.js''])]"

text \<open>
  A candidate that fails or is skipped: loading it throws, its default export is not
  callable, or calling the export throws.
\<close>

definition candidate_fails :: "'n node_env \<Rightarrow> string \<Rightarrow> bool" where
  "candidate_fails env p =
     (import_module env (''file://'' @ p) = ImportThrows
      \<or> import_module env (''file://'' @ p) = Module NotAFunction
      \<or> import_module env (''file://'' @ p) = Module (ThemeFunction CallThrows))"

text \<open>Deduplication that keeps the first occurrence of each element.\<close>

primrec dedup_first :: "'a list \<Rightarrow> 'a list" where
  "dedup_first [] = []"
| "dedup_first (x # xs) = x # filter (\<lambda>y. y \<noteq> x) (dedup_first xs)"

text \<open>
  The styles a name ends with: those of its inline definition if it has one, else what the
  resolver returns; none when the resolver fails.
\<close>

definition theme_styles ::
    "(string \<Rightarrow> js_error + 'n style_value js_object) \<Rightarrow> (string \<rightharpoonup> 'n style_value js_object)
       \<Rightarrow> string \<Rightarrow> 'n style_value js_object option" where
  "theme_styles extractTheme inlineThemeMap t =
     (case inlineThemeMap t of
        Some inlineStyles \<Rightarrow> Some inlineStyles
      | None \<Rightarrow> (case extractTheme t of Inr themeData \<Rightarrow> Some themeData | Inl e \<Rightarrow> None))"

text \<open>The error entries of the names without inline definition whose resolution fails.\<close>

definition theme_errors ::
    "(string \<Rightarrow> js_error + 'n style_value js_object) \<Rightarrow> (string \<rightharpoonup> 'n style_value js_object)
       \<Rightarrow> string \<Rightarrow> ThemeError list" where
  "theme_errors extractTheme inlineThemeMap t =
     (case inlineThemeMap t of
        Some inlineStyles \<Rightarrow> []
      | None \<Rightarrow>
          (case extractTheme t of
             Inr themeData \<Rightarrow> []
           | Inl e \<Rightarrow> [\<lparr>theme = t, error = getErrorMessage e\<rparr>]))"

text \<open>
  The matched blocks of the two grammars, in match order: the \<open>themes:\<close> values of the
  reference blocks, and the bodies of the inline blocks.
\<close>

function matched_themes :: "string \<Rightarrow> string list" where
  "matched_themes css =
     (case exec_from pluginRegex css of
        None \<Rightarrow> []
      | Some (caps, rest) \<Rightarrow>
          (case caps of [themesString] \<Rightarrow> themesString # matched_themes rest | _ \<Rightarrow> []))"
  by pat_completeness auto
termination
proof (relation "measure length")
  show "wf (measure length)" by simp
next
  fix css :: string and m caps rest themesString tl
  assume "exec_from pluginRegex css = Some m" and "(caps, rest) = m"
  then have "exec_from pluginRegex css = Some (caps, rest)" by simp
  then have "length rest < length css"
    unfolding pluginRegex_def by (rule exec_from_Lit_shorter) simp
  then show "(rest, css) \<in> measure length" by simp
qed

function matched_blocks :: "string \<Rightarrow> string list" where
  "matched_blocks css =
     (case exec_from themePluginRegex css of
        None \<Rightarrow> []
      | Some (caps, rest) \<Rightarrow>
          (case caps of [blockContent] \<Rightarrow> blockContent # matched_blocks rest | _ \<Rightarrow> []))"
  by pat_completeness auto
termination
proof (relation "measure length")
  show "wf (measure length)" by simp
next
  fix css :: string and m caps rest blockContent tl
  assume "exec_from themePluginRegex css = Some m" and "(caps, rest) = m"
  then have "exec_from themePluginRegex css = Some (caps, rest)" by simp
  then have "length rest < length css"
    unfolding themePluginRegex_def by (rule exec_from_Lit_shorter) simp
  then show "(rest, css) \<in> measure length" by simp
qed

text \<open>A string without white space at either end.\<close>

definition trimmed :: "string \<Rightarrow> bool" where
  "trimmed s = (s = [] \<or> (\<not> is_ws (hd s) \<and> \<not> is_ws (last s)))"

text \<open>
  An item of a \<open>themes:\<close> list cut at its first flag marker, white space followed by
  \<open>--\<close>; the names of a list: its items, split at the commas, stripped of white space and
  cut at the marker, the empty ones dropped; the names of a CSS text: those of its matched
  blocks in match order, deduplicated keeping the first occurrence.
\<close>

fun spec_truncate_flag :: "string \<Rightarrow> string" where
  "spec_truncate_flag [] = []"
| "spec_truncate_flag (c # cs) =
     (if is_ws c \<and> prefix ''--'' (dropWhile is_ws cs) then [] else c # spec_truncate_flag cs)"

definition spec_names_of :: "string \<Rightarrow> string list" where
  "spec_names_of themesString =
     filter (\<lambda>t. t \<noteq> [])
       (map (\<lambda>t. spec_truncate_flag (trim t)) (split_char (CHR '','') themesString))"

definition spec_extractNames :: "string \<Rightarrow> string list" where
  "spec_extractNames css = dedup_first (concat (map spec_names_of (matched_themes css)))"

section \<open>Sample surroundings\<close>

text \<open>A \<^verbatim>\<open>formatHex\<close> that converts one colour, throws on another and knows no other.\<close>

definition sample_formatHex :: "string \<Rightarrow> hex_outcome" where
  "sample_formatHex x =
     (if x = ''rgb(255, 0, 0)'' then Hex ''#ff0000''
      else if x = ''hsl(none)'' then Throws else Undefined)"

text \<open>
  \<^verbatim>\<open>path.join\<close> on POSIX: the non-empty arguments joined by \<open>/\<close> and normalized (empty
  and \<open>.\<close> segments dropped, \<open>..\<close> resolved against the segment before it; a leading \<open>/\<close>
  and a trailing \<open>/\<close> kept).
\<close>

definition join_sep :: "string list \<Rightarrow> string" where
  "join_sep segs = (case segs of [] \<Rightarrow> [] | x # xs \<Rightarrow> x @ concat (map (\<lambda>y. CHR ''/'' # y) xs))"

definition normalize_step :: "bool \<Rightarrow> string \<Rightarrow> string list \<Rightarrow> string list" where
  "normalize_step allowAboveRoot seg res =
     (if seg = [] \<or> seg = ''.'' then res
      else if seg = ''..''
        then (if res \<noteq> [] \<and> last res \<noteq> ''..'' then butlast res
              else if allowAboveRoot then res @ [seg] else res)
      else res @ [seg])"

definition posix_normalize :: "string \<Rightarrow> string" where
  "posix_normalize p =
     (if p = [] then ''.''
      else let isAbsolute = (hd p = CHR ''/'');
               trailingSeparator = (last p = CHR ''/'');
               body = join_sep (fold (normalize_step (\<not> isAbsolute)) (split_char (CHR ''/'') p) [])
           in if body = [] then (if isAbsolute then ''/'' else if trailingSeparator then ''./'' else ''.'')
              else (if isAbsolute then ''/'' else []) @ body @ (if trailingSeparator then ''/'' else []))"

definition posix_join :: "string list \<Rightarrow> string" where
  "posix_join args = posix_normalize (join_sep (filter (\<lambda>a. a \<noteq> []) args))"

text \<open>
  A project in \<^verbatim>\<open>/home/app\<close> with daisyui installed, the tool installed globally. Three
  candidate files of the theme \<open>light\<close> exist: importing the first throws, the default
  export of the second is no function, the third is a theme function that calls
  \<^verbatim>\<open>addBase\<close> twice. No file of the theme \<open>nope\<close> exists.
\<close>

definition sample_env :: "unit node_env" where
  "sample_env =
     \<lparr>process_cwd = ''/home/app'',
      path_join = posix_join,
      cwd_daisyui = Some ''/home/app/node_modules/daisyui'',
      script_daisyui = Some ''/usr/lib/node_modules/daisyui-theme-extractor/node_modules/daisyui'',
      existsSync = (\<lambda>p. p \<in> set
        [''/home/app/node_modules/daisyui/theme/light/index.js'',
         ''/home/app/node_modules/daisyui/dist/themes/light.js'',
         ''/usr/lib/node_modules/daisyui-theme-extractor/node_modules/daisyui/theme/light/index.js'']),
      import_module = (\<lambda>url.
        if url = ''file:///home/app/node_modules/daisyui/theme/light/index.js'' then ImportThrows
        else if url = ''file:///home/app/node_modules/daisyui/dist/themes/light.js''
          then Module NotAFunction
        else if url = ''file:///usr/lib/node_modules/daisyui-theme-extractor/node_modules/daisyui/theme/light/index.js''
          then Module (ThemeFunction (CallReturns
            [[(''color-scheme'', VString ''light''), (''--color-primary'', VString ''rgb(255, 0, 0)'')],
             [(''--color-primary'', VString ''hsl(none)''), (''--radius-box'', VString ''1rem'')]]))
        else ImportThrows)\<rparr>"

text \<open>The resolver of the sample project, as \<^verbatim>\<open>main\<close> calls it.\<close>

definition sample_extract :: "string \<Rightarrow> js_error + unit style_value js_object" where
  "sample_extract t = snd (extractThemeData sample_env sample_formatHex t)"

text \<open>CSS sources.\<close>

definition css_reference :: string where
  \<open>css_reference = ''@plugin "daisyui" { themes: light --default, dark --prefersdark, forest; };''\<close>

definition css_duplicates :: string where
  \<open>css_duplicates = ''@plugin "daisyui" { themes: light, dark, light; };''\<close>

definition css_plain :: string where
  "css_plain = ''body { color: red; }''"

definition css_both :: string where
  \<open>css_both =
     ''@plugin "daisyui" { themes: light --default, dark --prefersdark; }\<newline>@plugin "daisyui/theme" {\<newline>  name: mediumseagreen;\<newline>  default: false;\<newline>  color-scheme: dark;\<newline>  --color-base-100: #edf7ef;\<newline>  --color-primary: rgb(255, 0, 0);\<newline>}''\<close>

definition css_proto_theme :: string where
  \<open>css_proto_theme =
     ''@plugin "daisyui" { themes: light, nope; }\<newline>@plugin "daisyui/theme" {\<newline>  name: __proto__;\<newline>  --color-primary: #ff0000;\<newline>}''\<close>

definition css_name_only :: string where
  \<open>css_name_only = ''@plugin "daisyui/theme" {\<newline>  name: mytheme;\<newline>}''\<close>

definition css_no_name :: string where
  \<open>css_no_name = ''@plugin "daisyui/theme" {\<newline>  --color-base-100: #ffffff;\<newline>}''\<close>

definition css_color_scheme_only :: string where
  \<open>css_color_scheme_only =
     ''@plugin "daisyui/theme" {\<newline>  name: mytheme;\<newline>  color-scheme: dark;\<newline>}''\<close>

definition css_proto_key :: string where
  \<open>css_proto_key =
     ''@plugin "daisyui/theme" {\<newline>  name: mytheme;\<newline>  --__proto__: 1rem;\<newline>}''\<close>

section \<open>Facts about strings and objects\<close>

lemma str_replace_prefix:
  "prefix pat s \<Longrightarrow> str_replace s pat rep = rep @ drop (length pat) s"
  by (cases s) auto

lemma cleanKey_drop:
  "cleanKey k =
     (if startsWith k ''--color-'' then drop 8 k
      else if startsWith k ''--'' then drop 2 k else k)"
  by (simp add: cleanKey_def startsWith_def str_replace_prefix eval_nat_numeral)

lemma color_prefix_is_generic: "startsWith k ''--color-'' \<Longrightarrow> startsWith k ''--''"
  by (auto simp: startsWith_def prefix_def)

lemma cleanKey_fixed: "\<not> startsWith k ''--'' \<Longrightarrow> cleanKey k = k"
  using color_prefix_is_generic [of k] by (auto simp: cleanKey_drop)

lemma cleanKey_shorter: "startsWith k ''--'' \<Longrightarrow> length (cleanKey k) < length k"
  by (auto simp: cleanKey_drop startsWith_def prefix_def)

lemma set_obj_insert_index: "set (obj_insert_index k v ps) = insert (k, v) (set ps)"
  by (induction ps) auto

lemma length_obj_insert_index: "length (obj_insert_index k v ps) = Suc (length ps)"
  by (induction ps) auto

lemma map_of_obj_insert_index:
  "k \<notin> fst ` set ps \<Longrightarrow> map_of (obj_insert_index k v ps) = (map_of ps)(k \<mapsto> v)"
  by (induction ps) (auto simp: fun_upd_twist)

lemma distinct_obj_insert_index:
  "k \<notin> fst ` set ps \<Longrightarrow> distinct (map fst ps) \<Longrightarrow>
     distinct (map fst (obj_insert_index k v ps))"
  by (induction ps) (auto simp: set_obj_insert_index)

lemma map_of_obj_define: "map_of (obj_define k v ps) = (map_of ps)(k \<mapsto> v)"
  by (auto simp: obj_define_def update_conv' map_of_obj_insert_index)

lemma keys_obj_define: "fst ` set (obj_define k v ps) = insert k (fst ` set ps)"
  using dom_update [of k v ps]
  by (auto simp: obj_define_def set_obj_insert_index)

lemma distinct_obj_define:
  "distinct (map fst ps) \<Longrightarrow> distinct (map fst (obj_define k v ps))"
  by (auto simp: obj_define_def distinct_update distinct_obj_insert_index)

lemma length_update_alist:
  "length (AList.update k v ps) = (if k \<in> fst ` set ps then length ps else Suc (length ps))"
  by (induction ps) auto

lemma length_obj_define:
  "length (obj_define k v ps) = (if k \<in> fst ` set ps then length ps else Suc (length ps))"
  by (auto simp: obj_define_def length_update_alist length_obj_insert_index)

lemma keys_obj_set:
  "fst ` set (obj_set k v ps) =
     (if k = proto_key \<and> k \<notin> fst ` set ps then fst ` set ps
      else insert k (fst ` set ps))"
  by (auto simp: obj_set_def keys_obj_define)

lemma distinct_obj_set: "distinct (map fst ps) \<Longrightarrow> distinct (map fst (obj_set k v ps))"
  by (simp add: obj_set_def distinct_obj_define)

lemma map_of_Some_key: "map_of ps k = Some v \<Longrightarrow> k \<in> fst ` set ps"
  using map_of_eq_None_iff [of ps k] by auto

lemma convertStyles_snoc:
  "convertStyles fh (es @ [(k, v)]) = obj_set (cleanKey k) (normalizeColor fh v) (convertStyles fh es)"
  by (simp add: convertStyles_def)

lemma keys_convertStyles:
  "fst ` set (convertStyles fh es) = cleanKey ` fst ` set es - {proto_key}"
proof (induction es rule: rev_induct)
  case Nil
  show ?case by (simp add: convertStyles_def)
next
  case (snoc e es)
  obtain k v where e: "e = (k, v)" by (cases e)
  show ?case
    unfolding e convertStyles_snoc keys_obj_set snoc.IH by auto
qed

lemma distinct_convertStyles: "distinct (map fst (convertStyles fh es))"
proof (induction es rule: rev_induct)
  case Nil
  show ?case by (simp add: convertStyles_def)
next
  case (snoc e es)
  obtain k v where e: "e = (k, v)" by (cases e)
  show ?case
    unfolding e convertStyles_snoc using snoc.IH by (rule distinct_obj_set)
qed

lemma length_convertStyles:
  "length (convertStyles fh es) = card (cleanKey ` fst ` set es - {proto_key})"
proof -
  have "card (set (map fst (convertStyles fh es))) = length (map fst (convertStyles fh es))"
    using distinct_convertStyles [of fh es] by (rule distinct_card)
  then show ?thesis by (simp add: keys_convertStyles)
qed

lemma proto_not_key: "proto_key \<notin> fst ` set (convertStyles fh es)"
  by (simp only: keys_convertStyles) simp

lemma obj_set_convertStyles:
  "obj_set c w (convertStyles fh es) =
     (if c = proto_key then convertStyles fh es else obj_define c w (convertStyles fh es))"
  using proto_not_key [of fh es] by (simp add: obj_set_def)

lemma map_of_convertStyles_snoc:
  "map_of (convertStyles fh (es @ [(k, v)])) c =
     (if c = cleanKey k \<and> c \<noteq> proto_key then Some (normalizeColor fh v)
      else map_of (convertStyles fh es) c)"
  by (simp add: convertStyles_snoc obj_set_convertStyles map_of_obj_define)

lemma convertStyles_last_wins:
  "map_of (convertStyles fh es) c = Some w \<Longrightarrow>
     \<exists>pre k v post. es = pre @ (k, v) # post \<and> cleanKey k = c \<and> w = normalizeColor fh v
        \<and> (\<forall>e\<in>set post. cleanKey (fst e) \<noteq> c)"
proof (induction es rule: rev_induct)
  case Nil
  then show ?case by (simp add: convertStyles_def)
next
  case (snoc e es)
  obtain k v where e: "e = (k, v)" by (cases e)
  show ?case
  proof (cases "c = cleanKey k")
    case True
    with snoc.prems e have "w = normalizeColor fh v"
      using proto_not_key [of fh es] map_of_Some_key [of "convertStyles fh es" c w]
      by (auto simp: map_of_convertStyles_snoc split: if_splits)
    with True e show ?thesis by (intro exI [of _ es] exI [of _ k] exI [of _ v] exI [of _ "[]"]) simp
  next
    case False
    with snoc.prems e have "map_of (convertStyles fh es) c = Some w"
      by (simp add: map_of_convertStyles_snoc)
    from snoc.IH [OF this] obtain pre k' v' post where
      "es = pre @ (k', v') # post" "cleanKey k' = c" "w = normalizeColor fh v'"
      "\<forall>e\<in>set post. cleanKey (fst e) \<noteq> c" by blast
    with False e show ?thesis
      by (intro exI [of _ pre] exI [of _ k'] exI [of _ v'] exI [of _ "post @ [e]"]) auto
  qed
qed

lemma convertStyles_overwrite:
  "map_of (convertStyles fh es) (cleanKey k) = Some old \<Longrightarrow>
     map_of (convertStyles fh (es @ [(k, v)])) (cleanKey k) = Some (normalizeColor fh v)
     \<and> length (convertStyles fh (es @ [(k, v)])) = length (convertStyles fh es)"
proof -
  assume a: "map_of (convertStyles fh es) (cleanKey k) = Some old"
  then have mem: "cleanKey k \<in> fst ` set (convertStyles fh es)"
    by (rule map_of_Some_key)
  have np: "cleanKey k \<noteq> proto_key"
  proof
    assume "cleanKey k = proto_key"
    with mem have "proto_key \<in> fst ` set (convertStyles fh es)" by simp
    with proto_not_key [of fh es] show False by simp
  qed
  have "map_of (convertStyles fh (es @ [(k, v)])) (cleanKey k) = Some (normalizeColor fh v)"
    using np by (simp add: map_of_convertStyles_snoc)
  moreover have "length (convertStyles fh (es @ [(k, v)])) = length (convertStyles fh es)"
    using mem np by (simp add: convertStyles_snoc obj_set_convertStyles length_obj_define)
  ultimately show ?thesis by simp
qed

lemma set_dedup_first: "set (dedup_first xs) = set xs"
  by (induction xs) auto

lemma filter_commute: "filter P (filter Q ys) = filter Q (filter P ys)"
  by (induction ys) auto

lemma filter_dedup_first: "filter P (dedup_first xs) = dedup_first (filter P xs)"
proof (induction xs)
  case Nil
  show ?case by simp
next
  case (Cons x xs)
  have swap: "filter P (filter (\<lambda>y. y \<noteq> x) (dedup_first xs))
      = filter (\<lambda>y. y \<noteq> x) (dedup_first (filter P xs))"
    using filter_commute [of P "\<lambda>y. y \<noteq> x" "dedup_first xs"] by (simp only: Cons.IH)
  show ?case
  proof (cases "P x")
    case True
    with swap show ?thesis by simp
  next
    case False
    then have "x \<notin> set (dedup_first (filter P xs))" by (simp add: set_dedup_first)
    then have "filter (\<lambda>y. y \<noteq> x) (dedup_first (filter P xs)) = dedup_first (filter P xs)"
      by (auto simp: filter_id_conv)
    with False swap show ?thesis by simp
  qed
qed

lemma distinct_dedup_first: "distinct (dedup_first xs)"
  by (induction xs) (auto simp: set_dedup_first)

lemma dedup_first_distinct: "distinct xs \<Longrightarrow> dedup_first xs = xs"
proof (induction xs)
  case Nil
  show ?case by simp
next
  case (Cons x xs)
  then have "filter (\<lambda>y. y \<noteq> x) xs = xs" by (auto simp: filter_id_conv)
  with Cons show ?case by simp
qed

lemma set_spread_fold:
  "fold (\<lambda>x seen. if x \<in> set seen then seen else seen @ [x]) xs acc
     = acc @ dedup_first (filter (\<lambda>x. x \<notin> set acc) xs)"
proof (induction xs arbitrary: acc)
  case Nil
  show ?case by simp
next
  case (Cons x xs)
  show ?case
  proof (cases "x \<in> set acc")
    case True
    then show ?thesis by (simp add: Cons.IH)
  next
    case False
    have "filter (\<lambda>y. y \<noteq> x) (filter (\<lambda>y. y \<notin> set acc) xs)
        = filter (\<lambda>y. y \<notin> set (acc @ [x])) xs"
      by (induction xs) auto
    then have "filter (\<lambda>y. y \<noteq> x) (dedup_first (filter (\<lambda>y. y \<notin> set acc) xs))
        = dedup_first (filter (\<lambda>y. y \<notin> set (acc @ [x])) xs)"
      by (simp only: filter_dedup_first)
    with False show ?thesis by (simp add: Cons.IH)
  qed
qed

lemma set_spread_dedup_first: "set_spread xs = dedup_first xs"
  by (simp add: set_spread_def set_spread_fold)

lemma dedup_first_append:
  "dedup_first (xs @ ys) = dedup_first xs @ filter (\<lambda>y. y \<notin> set xs) (dedup_first ys)"
proof (induction xs)
  case Nil
  show ?case by simp
next
  case (Cons x xs)
  have "filter (\<lambda>y. y \<noteq> x) (filter (\<lambda>y. y \<notin> set xs) zs)
      = filter (\<lambda>y. y \<notin> set (x # xs)) zs" for zs
    by (induction zs) auto
  with Cons show ?case by simp
qed

lemma dedup_first_idem_append: "dedup_first (dedup_first xs @ ys) = dedup_first (xs @ ys)"
  by (simp add: dedup_first_append [of "dedup_first xs"] dedup_first_append [of xs]
      dedup_first_distinct distinct_dedup_first set_dedup_first)

lemma try_paths_fails:
  "\<forall>q\<in>set pre. candidate_fails env q \<Longrightarrow>
     try_paths env fh (pre @ paths)
       = (pre @ fst (try_paths env fh paths), snd (try_paths env fh paths))"
proof (induction pre)
  case Nil
  show ?case by simp
next
  case (Cons q pre)
  then have "candidate_fails env q" by simp
  then have "try_paths env fh (q # (pre @ paths))
      = (q # fst (try_paths env fh (pre @ paths)), snd (try_paths env fh (pre @ paths)))"
    by (auto simp: candidate_fails_def split: prod.splits)
  with Cons show ?case by simp
qed

lemma try_paths_success:
  "import_module env (''file://'' @ p) = Module (ThemeFunction (CallReturns bases)) \<Longrightarrow>
     try_paths env fh (p # paths)
       = ([p], Some (convertStyles fh (fold (\<lambda>base acc. spread_merge acc base) bases [])))"
  by simp

lemma existingPaths_facts:
  "distinct (existingPaths env t) \<and> set (existingPaths env t) \<subseteq> set (allPossiblePaths env t)
   \<and> (\<forall>p\<in>set (existingPaths env t). existsSync env p)"
  by (auto simp: existingPaths_def set_spread_dedup_first distinct_dedup_first set_dedup_first)

section \<open>The claims on key cleaning\<close>

text \<open>
  Claim C7, as amended. The claim says that cleaning is idempotent for every key. The
  code strips one prefix per call, so cleaning twice equals cleaning once exactly when
  the cleaned key does not itself begin with the generic prefix \<open>--\<close>.
\<close>

theorem cleanKey_idempotent_iff:
  "cleanKey (cleanKey k) = cleanKey k \<longleftrightarrow> \<not> startsWith (cleanKey k) ''--''"
proof
  assume eq: "cleanKey (cleanKey k) = cleanKey k"
  show "\<not> startsWith (cleanKey k) ''--''"
  proof
    assume "startsWith (cleanKey k) ''--''"
    then have "length (cleanKey (cleanKey k)) < length (cleanKey k)"
      by (rule cleanKey_shorter)
    with eq show False by simp
  qed
next
  assume "\<not> startsWith (cleanKey k) ''--''"
  then show "cleanKey (cleanKey k) = cleanKey k"
    by (rule cleanKey_fixed)
qed

text \<open>
  Claim C7 as stated fails: the key \<open>----x\<close> is cleaned to \<open>--x\<close>, and that to \<open>x\<close>.
\<close>

theorem cleanKey_not_idempotent:
  "cleanKey (cleanKey ''----x'') \<noteq> cleanKey ''----x''"
  by (simp add: cleanKey_def startsWith_def)

text \<open>
  Claim C8, as amended. Exactly one prefix is stripped per key: the compound prefix
  \<open>--color-\<close> (8 characters) if the key starts with it, else the generic prefix \<open>--\<close> if the
  key starts with that, else nothing. The cleaned key still starts with \<open>--\<close> exactly when
  the rest after the stripped prefix does.
\<close>

theorem cleanKey_strips_one_prefix:
  "cleanKey k =
     (if startsWith k ''--color-'' then drop 8 k
      else if startsWith k ''--'' then drop 2 k else k)
   \<and> (startsWith (cleanKey k) ''--'' \<longleftrightarrow>
        startsWith k ''--color---'' \<or> (startsWith k ''----'' \<and> \<not> startsWith k ''--color-''))"
proof -
  have "startsWith (cleanKey k) ''--'' \<longleftrightarrow>
        startsWith k ''--color---'' \<or> (startsWith k ''----'' \<and> \<not> startsWith k ''--color-'')"
    by (auto simp: cleanKey_drop startsWith_def prefix_def)
  then show ?thesis by (simp add: cleanKey_drop)
qed

text \<open>
  Claim C8 as stated fails: the cleaned form of \<open>--color---x\<close> is \<open>--x\<close>, which starts with
  the generic prefix.
\<close>

theorem cleanKey_keeps_prefix:
  "cleanKey ''--color---x'' = ''--x'' \<and> startsWith (cleanKey ''--color---x'') ''--''"
  by (simp add: cleanKey_def startsWith_def)

section \<open>The claims on style conversion\<close>

text \<open>
  Claim C6. The colour normalizer is fail-soft. For a string \<open>s\<close> that contains one of
  \<open>oklch(\<close>, \<open>rgb(\<close>, \<open>hsl(\<close>, \<open>lch(\<close> the stored value is a string \<open>r\<close>: either the
  non-empty string that \<^verbatim>\<open>formatHex\<close> returned, or \<open>s\<close> itself, the latter when
  \<^verbatim>\<open>formatHex\<close> threw, returned \<^verbatim>\<open>undefined\<close> or returned the empty string. Other strings,
  numbers and nested objects are stored unchanged. The function is total: it neither throws
  nor returns null. Where \<^verbatim>\<open>formatHex\<close> keeps to its contract, \<open>r\<close> is a \<open>#\<close>-prefixed hex
  string or \<open>s\<close>.
\<close>

theorem normalizeColor_fail_soft:
  "(is_color_candidate s \<longrightarrow>
      (\<exists>r. normalizeColor formatHex (VString s) = VString r \<and> convertToHex formatHex s = r
         \<and> (formatHex s = Hex r \<and> r \<noteq> []
              \<or> r = s \<and> (formatHex s = Throws \<or> formatHex s = Undefined \<or> formatHex s = Hex []))))
   \<and> (\<not> is_color_candidate s \<longrightarrow> normalizeColor formatHex (VString s) = VString s)
   \<and> normalizeColor formatHex (VNumber n) = VNumber n
   \<and> normalizeColor formatHex (VNested m) = VNested m
   \<and> (hex_contract formatHex \<longrightarrow> is_color_candidate s \<longrightarrow>
        (\<exists>r. normalizeColor formatHex (VString s) = VString r \<and> (hex_string r \<or> r = s)))"
proof -
  have conv: "formatHex s = Hex (convertToHex formatHex s) \<and> convertToHex formatHex s \<noteq> []
      \<or> convertToHex formatHex s = s
         \<and> (formatHex s = Throws \<or> formatHex s = Undefined \<or> formatHex s = Hex [])"
    by (cases "formatHex s") (simp_all add: convertToHex_def)
  have cand: "is_color_candidate s \<Longrightarrow>
      normalizeColor formatHex (VString s) = VString (convertToHex formatHex s)"
    by (simp add: normalizeColor_def)
  have other: "\<not> is_color_candidate s \<Longrightarrow> normalizeColor formatHex (VString s) = VString s"
    by (simp add: normalizeColor_def)
  have hex: "hex_contract formatHex \<Longrightarrow> hex_string (convertToHex formatHex s) \<or> convertToHex formatHex s = s"
    using conv by (auto simp: hex_contract_def)
  show ?thesis
    using conv cand other hex by (auto simp: normalizeColor_def)
qed

theorem normalizeColor_fail_soft_witness:
  "hex_contract sample_formatHex \<and> is_color_candidate ''rgb(255, 0, 0)''
   \<and> normalizeColor sample_formatHex (VString ''rgb(255, 0, 0)'' :: unit style_value) = VString ''#ff0000''
   \<and> hex_string ''#ff0000''
   \<and> is_color_candidate ''hsl(none)''
   \<and> normalizeColor sample_formatHex (VString ''hsl(none)'' :: unit style_value) = VString ''hsl(none)''
   \<and> \<not> is_color_candidate ''1rem''
   \<and> normalizeColor sample_formatHex (VString ''1rem'' :: unit style_value) = VString ''1rem''"
proof -
  have c: "hex_contract sample_formatHex"
    by (auto simp: hex_contract_def sample_formatHex_def hex_string_def is_hex_digit_def
        split: if_splits)
  have k1: "is_color_candidate ''rgb(255, 0, 0)''" by code_simp
  have k2: "is_color_candidate ''hsl(none)''" by code_simp
  have k3: "\<not> is_color_candidate ''1rem''" by code_simp
  have f1: "sample_formatHex ''rgb(255, 0, 0)'' = Hex ''#ff0000''"
    by (simp add: sample_formatHex_def)
  have f2: "sample_formatHex ''hsl(none)'' = Throws"
    by (simp add: sample_formatHex_def)
  have h: "hex_string ''#ff0000''" by code_simp
  from normalizeColor_fail_soft [where s = "''rgb(255, 0, 0)''" and formatHex = sample_formatHex and n = "()" and m = "[]"] k1 f1
  have r1: "normalizeColor sample_formatHex (VString ''rgb(255, 0, 0)'' :: unit style_value) = VString ''#ff0000''"
    by (auto simp: convertToHex_def)
  from normalizeColor_fail_soft [where s = "''hsl(none)''" and formatHex = sample_formatHex and n = "()" and m = "[]"] k2 f2
  have r2: "normalizeColor sample_formatHex (VString ''hsl(none)'' :: unit style_value) = VString ''hsl(none)''"
    by auto
  from normalizeColor_fail_soft [where s = "''1rem''" and formatHex = sample_formatHex and n = "()" and m = "[]"] k3
  have r3: "normalizeColor sample_formatHex (VString ''1rem'' :: unit style_value) = VString ''1rem''"
    by auto
  from c k1 r1 h k2 r2 k3 r3 show ?thesis by (intro conjI)
qed

text \<open>
  Claim C10. Two raw keys can be cleaned to the same key: \<open>--color-primary\<close> and
  \<open>--primary\<close> both give \<open>primary\<close>. When an entry is stored whose cleaned key is already
  in the output, its value replaces the earlier one and no entry is added; so every value
  of the output is the normalized value of the last raw entry with that cleaned key, and
  the output of the two keys above has one entry for two raw ones.
\<close>

theorem convertStyles_collision:
  "cleanKey ''--color-primary'' = ''primary'' \<and> cleanKey ''--primary'' = ''primary''
   \<and> (map_of (convertStyles formatHex es) (cleanKey k) = Some old \<longrightarrow>
        map_of (convertStyles formatHex (es @ [(k, v)])) (cleanKey k) = Some (normalizeColor formatHex v)
        \<and> length (convertStyles formatHex (es @ [(k, v)])) = length (convertStyles formatHex es))
   \<and> (map_of (convertStyles formatHex es) c = Some w \<longrightarrow>
        (\<exists>pre k' v' post. es = pre @ (k', v') # post \<and> cleanKey k' = c
           \<and> w = normalizeColor formatHex v' \<and> (\<forall>e\<in>set post. cleanKey (fst e) \<noteq> c)))
   \<and> convertStyles formatHex
         [(''--color-primary'', VString ''#111111''), (''--primary'', VString ''#222222'')]
       = [(''primary'', VString ''#222222'')]
   \<and> length (convertStyles formatHex
         [(''--color-primary'', VString ''#111111''), (''--primary'', VString ''#222222'')])
       < length [(''--color-primary'', VString ''#111111''), (''--primary'', VString ''#222222'')]"
proof -
  have k1: "cleanKey ''--color-primary'' = ''primary''"
    by (simp add: cleanKey_def startsWith_def)
  have k2: "cleanKey ''--primary'' = ''primary''"
    by (simp add: cleanKey_def startsWith_def)
  have n1: "normalizeColor formatHex (VString ''#111111'') = VString ''#111111''"
    by (simp add: normalizeColor_def is_color_candidate_def)
  have n2: "normalizeColor formatHex (VString ''#222222'') = VString ''#222222''"
    by (simp add: normalizeColor_def is_color_candidate_def)
  have np: "''primary'' \<noteq> proto_key" by (simp add: proto_key_def)
  have ni: "\<not> is_array_index ''primary''" by (simp add: is_array_index_def is_digit_def)
  have ex: "convertStyles formatHex
         [(''--color-primary'', VString ''#111111''), (''--primary'', VString ''#222222'')]
       = [(''primary'', VString ''#222222'')]"
    using np ni by (simp add: convertStyles_def k1 k2 n1 n2 obj_set_def obj_define_def)
  have len: "length (convertStyles formatHex
         [(''--color-primary'', VString ''#111111''), (''--primary'', VString ''#222222'')])
       < length [(''--color-primary'', VString ''#111111''), (''--primary'', VString ''#222222'')]"
    by (simp add: ex)
  have ow: "map_of (convertStyles formatHex es) (cleanKey k) = Some old \<longrightarrow>
        map_of (convertStyles formatHex (es @ [(k, v)])) (cleanKey k) = Some (normalizeColor formatHex v)
        \<and> length (convertStyles formatHex (es @ [(k, v)])) = length (convertStyles formatHex es)"
    using convertStyles_overwrite [of formatHex es k old v] by blast
  have lw: "map_of (convertStyles formatHex es) c = Some w \<longrightarrow>
        (\<exists>pre k' v' post. es = pre @ (k', v') # post \<and> cleanKey k' = c
           \<and> w = normalizeColor formatHex v' \<and> (\<forall>e\<in>set post. cleanKey (fst e) \<noteq> c))"
    using convertStyles_last_wins [of formatHex es c w] by blast
  from k1 k2 ow lw ex len show ?thesis by (intro conjI)
qed

theorem convertStyles_collision_witness:
  "map_of (convertStyles sample_formatHex [(''--color-primary'', VString ''rgb(255, 0, 0)'')])
       (cleanKey ''--primary'') = Some (VString ''#ff0000'' :: unit style_value)
   \<and> map_of (convertStyles sample_formatHex
         ([(''--color-primary'', VString ''rgb(255, 0, 0)'')] @ [(''--primary'', VString ''hsl(none)'')]))
       (cleanKey ''--primary'') = Some (VString ''hsl(none)'' :: unit style_value)
   \<and> length (convertStyles sample_formatHex
         ([(''--color-primary'', VString ''rgb(255, 0, 0)'')] @ [(''--primary'', VString ''hsl(none)'' :: unit style_value)]))
       = 1"
proof -
  have h: "map_of (convertStyles sample_formatHex [(''--color-primary'', VString ''rgb(255, 0, 0)'')])
       (cleanKey ''--primary'') = Some (VString ''#ff0000'' :: unit style_value)"
    by code_simp
  have n: "normalizeColor sample_formatHex (VString ''hsl(none)'' :: unit style_value) = VString ''hsl(none)''"
    by code_simp
  have l: "length (convertStyles sample_formatHex [(''--color-primary'', VString ''rgb(255, 0, 0)'' :: unit style_value)]) = 1"
    by code_simp
  note ow = conjunct1 [OF conjunct2 [OF conjunct2 [OF convertStyles_collision
      [where formatHex = sample_formatHex
         and es = "[(''--color-primary'', VString ''rgb(255, 0, 0)'')]" and k = "''--primary''"
         and old = "VString ''#ff0000''" and v = "VString ''hsl(none)''" and c = "''primary''"
         and w = "VString ''#ff0000'' :: unit style_value"]]]]
  from ow h have
    "map_of (convertStyles sample_formatHex
         ([(''--color-primary'', VString ''rgb(255, 0, 0)'')] @ [(''--primary'', VString ''hsl(none)'')]))
       (cleanKey ''--primary'') = Some (normalizeColor sample_formatHex (VString ''hsl(none)'' :: unit style_value))
     \<and> length (convertStyles sample_formatHex
         ([(''--color-primary'', VString ''rgb(255, 0, 0)'')] @ [(''--primary'', VString ''hsl(none)'' :: unit style_value)]))
       = length (convertStyles sample_formatHex [(''--color-primary'', VString ''rgb(255, 0, 0)'' :: unit style_value)])"
    by (rule mp)
  with h show ?thesis unfolding n l by blast
qed

section \<open>The claims on the module resolver\<close>

text \<open>
  Claim C9, as amended. For every environment and theme name the list of candidates
  starts with the four direct locations under \<^verbatim>\<open>node_modules/daisyui\<close> of the working
  directory. Immediately after them come two locations one directory level up, the
  themed-directory layout and the distribution themed-directory layout, and no other
  layout of that level. All that follows are the manifest-resolved candidates and then
  those of the tool's own installation, four layouts each where its resolution succeeds.
\<close>

theorem allPossiblePaths_groups:
  "take 4 (allPossiblePaths env themeName)
     = spec_layouts (path_join env) [process_cwd env, ''node_modules'', ''daisyui''] themeName
   \<and> take 2 (drop 4 (allPossiblePaths env themeName))
     = take 2 (spec_layouts (path_join env) [process_cwd env, ''..'', ''node_modules'', ''daisyui''] themeName)
   \<and> drop 6 (allPossiblePaths env themeName)
     = (case cwd_daisyui env of None \<Rightarrow> [] | Some d \<Rightarrow> spec_layouts (path_join env) [d] themeName)
       @ (case script_daisyui env of None \<Rightarrow> [] | Some d \<Rightarrow> spec_layouts (path_join env) [d] themeName)"
  by (simp add: allPossiblePaths_def cwdPaths_def parentPaths_def resolvedPaths_def
      spec_layouts_def split: option.splits)

text \<open>
  Claim C9 as stated fails: in the sample project the four candidates after the four
  direct locations are not the four layouts one level up. The third and the fourth of
  them are manifest-resolved candidates, and the flat layouts one level up are no
  candidates at all.
\<close>

theorem parent_group_has_two_layouts:
  "take 4 (drop 4 (allPossiblePaths sample_env ''light''))
     \<noteq> spec_layouts (path_join sample_env) [process_cwd sample_env, ''..'', ''node_modules'', ''daisyui''] ''light''
   \<and> take 4 (drop 4 (allPossiblePaths sample_env ''light''))
     = [''/home/node_modules/daisyui/theme/light/index.js'',
        ''/home/node_modules/daisyui/dist/theme/light/index.js'',
        ''/home/app/node_modules/daisyui/theme/light/index.js'',
        ''/home/app/node_modules/daisyui/dist/theme/light/index.js'']
   \<and> ''/home/node_modules/daisyui/src/theming/themes/light.js''
       \<notin> set (allPossiblePaths sample_env ''light'')
   \<and> ''/home/node_modules/daisyui/dist/themes/light.js''
       \<notin> set (allPossiblePaths sample_env ''light'')"
  by code_simp

text \<open>
  Claim C3. The candidates are tried in order. If every candidate before \<open>p\<close> fails or
  is skipped (loading throws, the default export is not callable, or the call throws) and
  \<open>p\<close> loads, has a callable default export and its call returns, then the result is the
  converted accumulator of \<open>p\<close>, the modules imported are those up to \<open>p\<close>, and no
  candidate after \<open>p\<close> is imported. If every candidate fails, none existing included, the
  resolution fails with the error that names the theme. The candidates are distinct,
  existing, possible paths.
\<close>

theorem extractThemeData_first_success:
  "(existingPaths env t = pre @ p # post \<and> (\<forall>q\<in>set pre. candidate_fails env q)
      \<and> import_module env (''file://'' @ p) = Module (ThemeFunction (CallReturns bases))
     \<longrightarrow> extractThemeData env formatHex t
           = (pre @ [p],
              Inr (convertStyles formatHex
                     (fold (\<lambda>base extractedStyles. spread_merge extractedStyles base) bases [])))
         \<and> set post \<inter> set (fst (extractThemeData env formatHex t)) = {})
   \<and> ((\<forall>q\<in>set (existingPaths env t). candidate_fails env q)
     \<longrightarrow> extractThemeData env formatHex t = (existingPaths env t, Inl (not_found t)))
   \<and> not_found t
       = Error (''Could not import theme '' @ [CHR 0x27] @ t @ [CHR 0x27]
                  @ '' from any known path in node_modules'')
   \<and> distinct (existingPaths env t)
   \<and> set (existingPaths env t) \<subseteq> set (allPossiblePaths env t)
   \<and> (\<forall>q\<in>set (existingPaths env t). existsSync env q)"
proof -
  have first: "extractThemeData env formatHex t
           = (pre @ [p],
              Inr (convertStyles formatHex
                     (fold (\<lambda>base extractedStyles. spread_merge extractedStyles base) bases [])))
         \<and> set post \<inter> set (fst (extractThemeData env formatHex t)) = {}"
    if ex: "existingPaths env t = pre @ p # post"
      and fails: "\<forall>q\<in>set pre. candidate_fails env q"
      and ok: "import_module env (''file://'' @ p) = Module (ThemeFunction (CallReturns bases))"
  proof -
    have "try_paths env formatHex (pre @ p # post)
        = (pre @ [p],
           Some (convertStyles formatHex
                   (fold (\<lambda>base extractedStyles. spread_merge extractedStyles base) bases [])))"
      using try_paths_fails [OF fails, of formatHex "p # post"]
        try_paths_success [OF ok, of formatHex post] by simp
    then have r: "extractThemeData env formatHex t
           = (pre @ [p],
              Inr (convertStyles formatHex
                     (fold (\<lambda>base extractedStyles. spread_merge extractedStyles base) bases [])))"
      by (simp add: extractThemeData_def ex)
    from existingPaths_facts [of env t] have "distinct (pre @ p # post)" by (simp add: ex)
    then have "set post \<inter> set (pre @ [p]) = {}" by auto
    with r show ?thesis by simp
  qed
  have none: "extractThemeData env formatHex t = (existingPaths env t, Inl (not_found t))"
    if fails: "\<forall>q\<in>set (existingPaths env t). candidate_fails env q"
    using try_paths_fails [OF fails, of formatHex "[]"] by (simp add: extractThemeData_def)
  have nf: "not_found t
       = Error (''Could not import theme '' @ [CHR 0x27] @ t @ [CHR 0x27]
                  @ '' from any known path in node_modules'')"
    by (simp only: not_found_def)
  note facts = existingPaths_facts [of env t]
  show ?thesis
  proof (intro conjI impI)
    assume "existingPaths env t = pre @ p # post \<and> (\<forall>q\<in>set pre. candidate_fails env q)
      \<and> import_module env (''file://'' @ p) = Module (ThemeFunction (CallReturns bases))"
    then have a: "existingPaths env t = pre @ p # post"
      and b: "\<forall>q\<in>set pre. candidate_fails env q"
      and c: "import_module env (''file://'' @ p) = Module (ThemeFunction (CallReturns bases))"
      by blast+
    from first [OF a b c]
    show "extractThemeData env formatHex t
           = (pre @ [p],
              Inr (convertStyles formatHex
                     (fold (\<lambda>base extractedStyles. spread_merge extractedStyles base) bases [])))"
      and "set post \<inter> set (fst (extractThemeData env formatHex t)) = {}"
      by blast+
  next
    assume "\<forall>q\<in>set (existingPaths env t). candidate_fails env q"
    then show "extractThemeData env formatHex t = (existingPaths env t, Inl (not_found t))"
      by (rule none)
  next
    show "not_found t
       = Error (''Could not import theme '' @ [CHR 0x27] @ t @ [CHR 0x27]
                  @ '' from any known path in node_modules'')"
      by (rule nf)
  next
    from facts show "distinct (existingPaths env t)" by blast
  next
    from facts show "set (existingPaths env t) \<subseteq> set (allPossiblePaths env t)" by blast
  next
    from facts show "\<forall>q\<in>set (existingPaths env t). existsSync env q" by blast
  qed
qed

theorem extractThemeData_first_success_witness:
  "existingPaths sample_env ''light''
     = [''/home/app/node_modules/daisyui/theme/light/index.js'',
        ''/home/app/node_modules/daisyui/dist/themes/light.js'']
       @ ''/usr/lib/node_modules/daisyui-theme-extractor/node_modules/daisyui/theme/light/index.js'' # []
   \<and> candidate_fails sample_env ''/home/app/node_modules/daisyui/theme/light/index.js''
   \<and> candidate_fails sample_env ''/home/app/node_modules/daisyui/dist/themes/light.js''
   \<and> extractThemeData sample_env sample_formatHex ''light''
     = ([''/home/app/node_modules/daisyui/theme/light/index.js'',
         ''/home/app/node_modules/daisyui/dist/themes/light.js'',
         ''/usr/lib/node_modules/daisyui-theme-extractor/node_modules/daisyui/theme/light/index.js''],
        Inr [(''color-scheme'', VString ''light''), (''primary'', VString ''hsl(none)''),
             (''radius-box'', VString ''1rem'')])
   \<and> existingPaths sample_env ''nope'' = []
   \<and> extractThemeData sample_env sample_formatHex ''nope'' = ([], Inl (not_found ''nope''))"
proof -
  let ?a = "''/home/app/node_modules/daisyui/theme/light/index.js''"
  let ?b = "''/home/app/node_modules/daisyui/dist/themes/light.js''"
  let ?c = "''/usr/lib/node_modules/daisyui-theme-extractor/node_modules/daisyui/theme/light/index.js''"
  let ?bases = "[[(''color-scheme'', VString ''light''), (''--color-primary'', VString ''rgb(255, 0, 0)'')],
             [(''--color-primary'', VString ''hsl(none)''), (''--radius-box'', VString ''1rem'')]]
             :: unit style_value js_object list"
  have ex: "existingPaths sample_env ''light'' = [?a, ?b] @ ?c # []" by code_simp
  have fa: "candidate_fails sample_env ?a" by code_simp
  have fb: "candidate_fails sample_env ?b" by code_simp
  have ok: "import_module sample_env (''file://'' @ ?c) = Module (ThemeFunction (CallReturns ?bases))"
    by code_simp
  have conv: "convertStyles sample_formatHex
        (fold (\<lambda>base extractedStyles. spread_merge extractedStyles base) ?bases [])
      = [(''color-scheme'', VString ''light''), (''primary'', VString ''hsl(none)''),
         (''radius-box'', VString ''1rem'')]"
    by code_simp
  have none: "existingPaths sample_env ''nope'' = []" by code_simp
  note thm1 = extractThemeData_first_success
    [where env = sample_env and t = "''light''" and pre = "[?a, ?b]" and p = ?c and post = "[]"
       and bases = ?bases and formatHex = sample_formatHex]
  from conjunct1 [OF thm1] ex fa fb ok
  have r1: "extractThemeData sample_env sample_formatHex ''light''
      = ([?a, ?b] @ [?c],
         Inr (convertStyles sample_formatHex
                (fold (\<lambda>base extractedStyles. spread_merge extractedStyles base) ?bases [])))"
    by simp
  note thm2 = extractThemeData_first_success
    [where env = sample_env and t = "''nope''" and pre = "[]" and p = "[]" and post = "[]"
       and bases = "[]" and formatHex = sample_formatHex]
  from conjunct1 [OF conjunct2 [OF thm2]] none
  have r2: "extractThemeData sample_env sample_formatHex ''nope'' = ([], Inl (not_found ''nope''))"
    by simp
  from ex fa fb r1 none r2 show ?thesis unfolding conv by simp
qed

section \<open>The claims on the run\<close>

lemma process_theme_errors:
  "errors (process_theme ex im t st) = errors st @ theme_errors ex im t"
  by (simp add: process_theme_def theme_errors_def split: option.splits sum.splits)

lemma process_theme_resolved:
  "resolved (process_theme ex im t st) = resolved st @ (if im t = None then [t] else [])"
  by (simp add: process_theme_def split: option.splits sum.splits)

lemma process_theme_result:
  "result (process_theme ex im t st)
     = (case theme_styles ex im t of None \<Rightarrow> result st | Some s \<Rightarrow> obj_set t s (result st))"
  by (simp add: process_theme_def theme_styles_def split: option.splits sum.splits)

lemma fold_process_errors:
  "errors (fold (process_theme ex im) ts st) = errors st @ concat (map (theme_errors ex im) ts)"
  by (induction ts arbitrary: st) (simp_all add: process_theme_errors)

lemma fold_process_resolved:
  "resolved (fold (process_theme ex im) ts st) = resolved st @ filter (\<lambda>t. im t = None) ts"
  by (induction ts arbitrary: st) (simp_all add: process_theme_resolved)

lemma map_of_obj_set:
  "proto_key \<notin> fst ` set ps \<Longrightarrow>
     map_of (obj_set k v ps) = (if k = proto_key then map_of ps else (map_of ps)(k \<mapsto> v))"
  by (simp add: obj_set_def map_of_obj_define)

lemma proto_obj_set: "proto_key \<notin> fst ` set ps \<Longrightarrow> proto_key \<notin> fst ` set (obj_set k v ps)"
  by (auto simp: keys_obj_set)

lemma fold_process_proto:
  "proto_key \<notin> fst ` set (result st) \<Longrightarrow>
     proto_key \<notin> fst ` set (result (fold (process_theme ex im) ts st))"
proof (induction ts arbitrary: st)
  case Nil
  then show ?case by simp
next
  case (Cons t ts)
  from Cons.prems have "proto_key \<notin> fst ` set (result (process_theme ex im t st))"
    by (auto simp: process_theme_result proto_obj_set split: option.splits)
  then show ?case by (simp add: Cons.IH)
qed

lemma fold_process_result:
  "proto_key \<notin> fst ` set (result st) \<Longrightarrow>
     map_of (result (fold (process_theme ex im) ts st)) u
       = (if u \<in> set ts \<and> u \<noteq> proto_key \<and> theme_styles ex im u \<noteq> None
          then theme_styles ex im u else map_of (result st) u)"
proof (induction ts arbitrary: st)
  case Nil
  then show ?case by simp
next
  case (Cons t ts)
  let ?st = "process_theme ex im t st"
  from Cons.prems have p: "proto_key \<notin> fst ` set (result ?st)"
    by (auto simp: process_theme_result proto_obj_set split: option.splits)
  have step: "map_of (result ?st) u
      = (if u = t \<and> u \<noteq> proto_key \<and> theme_styles ex im u \<noteq> None
         then theme_styles ex im u else map_of (result st) u)"
    using Cons.prems by (auto simp: process_theme_result map_of_obj_set split: option.splits)
  show ?case
    using Cons.IH [OF p] step by auto
qed

lemma process_themes_result:
  "map_of (result (process_themes ex im ts)) u
     = (if u \<in> set ts \<and> u \<noteq> proto_key then theme_styles ex im u else None)"
  unfolding process_themes_def
  by (subst fold_process_result) auto

lemma process_themes_keys:
  "fst ` set (result (process_themes ex im ts))
     = {u \<in> set ts. u \<noteq> proto_key \<and> theme_styles ex im u \<noteq> None}"
proof -
  have "fst ` set (result (process_themes ex im ts)) = dom (map_of (result (process_themes ex im ts)))"
    by (simp add: dom_map_of_conv_image_fst)
  also have "\<dots> = {u \<in> set ts. u \<noteq> proto_key \<and> theme_styles ex im u \<noteq> None}"
    by (auto simp: process_themes_result dom_def)
  finally show ?thesis .
qed

lemma inline_map_fold:
  "dom (fold (\<lambda>t m. m(name t \<mapsto> styles t)) inl m) = dom m \<union> name ` set inl"
  by (induction inl arbitrary: m) auto

lemma dom_inline_map: "dom (inline_map inl) = name ` set inl"
  by (simp add: inline_map_def inline_map_fold)

lemma merge_names_eq:
  "merge_names themes names inl
     = (if names = [] \<and> inl = [] then themes else dedup_first (themes @ names @ map name inl))"
  using dedup_first_idem_append [of "themes @ names" "map name inl"]
  by (auto simp: merge_names_def Let_def set_spread_dedup_first)

lemma distinct_process_themes: "distinct (map fst (result (process_themes ex im ts)))"
proof -
  have "distinct (map fst (result st)) \<Longrightarrow>
      distinct (map fst (result (fold (process_theme ex im) ts st)))" for st
  proof (induction ts arbitrary: st)
    case Nil
    then show ?case by simp
  next
    case (Cons t ts)
    from Cons.prems have "distinct (map fst (result (process_theme ex im t st)))"
      by (auto simp: process_theme_result distinct_obj_set split: option.splits)
    then show ?case by (simp add: Cons.IH)
  qed
  then show ?thesis by (simp add: process_themes_def)
qed

text \<open>
  Claim C1 fails at a theme named \<open>__proto__\<close>. The CSS references \<open>light\<close> and \<open>nope\<close>
  and defines the inline theme \<open>__proto__\<close>: three names are processed, the resolution
  of \<open>nope\<close> fails and is recorded as the one error, and the collection holds \<open>light\<close>
  only, since the assignment \<^verbatim>\<open>result["__proto__"] = ...\<close> creates no entry.
\<close>

theorem main_loses_proto_theme:
  "extractInlineThemesFromCss sample_formatHex css_proto_theme
     = [\<lparr>name = ''__proto__'', styles = [(''primary'', VString ''#ff0000'')]\<rparr>
        :: unit CssThemeData]
   \<and> main sample_extract sample_formatHex [] ''src/index.css'' (Some (Some css_proto_theme))
     = Extracted [''light'', ''nope'', ''__proto__'']
         \<lparr>result =
            [(''light'',
              [(''color-scheme'', VString ''light''), (''primary'', VString ''hsl(none)''),
               (''radius-box'', VString ''1rem'')])],
          errors = [\<lparr>theme = ''nope'', error = getErrorMessage (not_found ''nope'')\<rparr>],
          resolved = [''light'', ''nope'']\<rparr>"
  by code_simp

lemma concat_single:
  "distinct ts \<Longrightarrow> f \<in> set ts \<Longrightarrow> \<forall>u\<in>set ts. u \<noteq> f \<longrightarrow> g u = [] \<Longrightarrow>
     concat (map g ts) = g f"
proof (induction ts)
  case Nil
  then show ?case by simp
next
  case (Cons t ts)
  show ?case
  proof (cases "t = f")
    case True
    with Cons.prems have "\<forall>u\<in>set ts. g u = []" by auto
    then have "concat (map g ts) = []" by (induction ts) auto
    with True show ?thesis by simp
  next
    case False
    with Cons.prems have "g t = []" "distinct ts" "f \<in> set ts" "\<forall>u\<in>set ts. u \<noteq> f \<longrightarrow> g u = []"
      by auto
    with Cons.IH show ?thesis by simp
  qed
qed

text \<open>
  Error isolation for every list of names. The errors are those of the names without
  inline definition whose resolution fails, in order, one each time such a name is
  processed; the collection has one entry for each other processed name, the reserved name
  \<open>__proto__\<close> excepted. So when one of three distinct names fails and neither of the other
  two is \<open>__proto__\<close>, the collection holds exactly those two and the error list exactly
  the entry of the failed one.
\<close>

theorem process_themes_isolation:
  "errors (process_themes extractTheme inlineThemeMap ts)
     = concat (map (theme_errors extractTheme inlineThemeMap) ts)
   \<and> fst ` set (result (process_themes extractTheme inlineThemeMap ts))
     = {u \<in> set ts. u \<noteq> proto_key \<and> theme_styles extractTheme inlineThemeMap u \<noteq> None}
   \<and> distinct (map fst (result (process_themes extractTheme inlineThemeMap ts)))
   \<and> (distinct ts \<and> set ts = {a, b, f} \<and> a \<noteq> b \<and> a \<noteq> f \<and> b \<noteq> f
        \<and> inlineThemeMap f = None \<and> extractTheme f = Inl e
        \<and> theme_styles extractTheme inlineThemeMap a \<noteq> None
        \<and> theme_styles extractTheme inlineThemeMap b \<noteq> None
        \<and> a \<noteq> proto_key \<and> b \<noteq> proto_key
      \<longrightarrow> fst ` set (result (process_themes extractTheme inlineThemeMap ts)) = {a, b}
          \<and> length (result (process_themes extractTheme inlineThemeMap ts)) = 2
          \<and> errors (process_themes extractTheme inlineThemeMap ts)
              = [\<lparr>theme = f, error = getErrorMessage e\<rparr>])"
proof -
  let ?run = "process_themes extractTheme inlineThemeMap ts"
  have e: "errors ?run = concat (map (theme_errors extractTheme inlineThemeMap) ts)"
    by (simp add: process_themes_def fold_process_errors)
  have k: "fst ` set (result ?run)
     = {u \<in> set ts. u \<noteq> proto_key \<and> theme_styles extractTheme inlineThemeMap u \<noteq> None}"
    by (rule process_themes_keys)
  have d: "distinct (map fst (result ?run))" by (rule distinct_process_themes)
  have three: "fst ` set (result ?run) = {a, b} \<and> length (result ?run) = 2
      \<and> errors ?run = [\<lparr>theme = f, error = getErrorMessage e\<rparr>]"
    if dt: "distinct ts" and st: "set ts = {a, b, f}" and ne: "a \<noteq> b" "a \<noteq> f" "b \<noteq> f"
      and fi: "inlineThemeMap f = None" and fe: "extractTheme f = Inl e"
      and sa: "theme_styles extractTheme inlineThemeMap a \<noteq> None"
      and sb: "theme_styles extractTheme inlineThemeMap b \<noteq> None"
      and pa: "a \<noteq> proto_key" and pb: "b \<noteq> proto_key"
  proof -
    from fi fe have sf: "theme_styles extractTheme inlineThemeMap f = None"
      by (simp add: theme_styles_def)
    from fi fe have ef: "theme_errors extractTheme inlineThemeMap f
        = [\<lparr>theme = f, error = getErrorMessage e\<rparr>]"
      by (simp add: theme_errors_def)
    have none: "theme_errors extractTheme inlineThemeMap u = []"
      if "theme_styles extractTheme inlineThemeMap u \<noteq> None" for u
      using that by (auto simp: theme_styles_def theme_errors_def split: option.splits sum.splits)
    from k st sa sb sf pa pb have keys: "fst ` set (result ?run) = {a, b}" by auto
    have "length (result ?run) = card (set (map fst (result ?run)))"
      using d distinct_card [of "map fst (result ?run)"] by simp
    with keys ne have len: "length (result ?run) = 2" by simp
    have "\<forall>u\<in>set ts. u \<noteq> f \<longrightarrow> theme_errors extractTheme inlineThemeMap u = []"
      using st sa sb none by auto
    with dt st have "concat (map (theme_errors extractTheme inlineThemeMap) ts)
        = theme_errors extractTheme inlineThemeMap f"
      by (intro concat_single) auto
    with e ef keys len show ?thesis by simp
  qed
  from e k d three show ?thesis by blast
qed

theorem process_themes_isolation_witness:
  "distinct [''light'', ''dark'', ''mediumseagreen'']
   \<and> (inline_map (extractInlineThemesFromCss sample_formatHex css_both)
        :: string \<rightharpoonup> unit style_value js_object) ''dark'' = None
   \<and> sample_extract ''dark'' = Inl (not_found ''dark'')
   \<and> fst ` set (result (process_themes sample_extract
         (inline_map (extractInlineThemesFromCss sample_formatHex css_both))
         [''light'', ''dark'', ''mediumseagreen''])) = {''light'', ''mediumseagreen''}
   \<and> errors (process_themes sample_extract
         (inline_map (extractInlineThemesFromCss sample_formatHex css_both))
         [''light'', ''dark'', ''mediumseagreen''])
     = [\<lparr>theme = ''dark'', error = getErrorMessage (not_found ''dark'')\<rparr>]"
proof -
  let ?im = "inline_map (extractInlineThemesFromCss sample_formatHex css_both)
      :: string \<rightharpoonup> unit style_value js_object"
  have h1: "distinct [''light'', ''dark'', ''mediumseagreen'']" by simp
  have h2: "set [''light'', ''dark'', ''mediumseagreen''] = {''light'', ''mediumseagreen'', ''dark''}"
    by auto
  have h3: "''light'' \<noteq> ''mediumseagreen''" "''light'' \<noteq> ''dark''" "''mediumseagreen'' \<noteq> ''dark''"
    by simp_all
  have h4: "?im ''dark'' = None" by code_simp
  have h5: "sample_extract ''dark'' = Inl (not_found ''dark'')" by code_simp
  have h6: "theme_styles sample_extract ?im ''light'' \<noteq> None" by code_simp
  have h7: "theme_styles sample_extract ?im ''mediumseagreen'' \<noteq> None" by code_simp
  have h8: "''light'' \<noteq> proto_key" "''mediumseagreen'' \<noteq> proto_key"
    by (simp_all add: proto_key_def)
  note inst = process_themes_isolation [where extractTheme = sample_extract and inlineThemeMap = ?im
      and ts = "[''light'', ''dark'', ''mediumseagreen'']" and a = "''light''"
      and b = "''mediumseagreen''" and f = "''dark''" and e = "not_found ''dark''"]
  note three = conjunct2 [OF conjunct2 [OF conjunct2 [OF inst]]]
  have prem: "distinct [''light'', ''dark'', ''mediumseagreen'']
      \<and> set [''light'', ''dark'', ''mediumseagreen''] = {''light'', ''mediumseagreen'', ''dark''}
      \<and> ''light'' \<noteq> ''mediumseagreen'' \<and> ''light'' \<noteq> ''dark'' \<and> ''mediumseagreen'' \<noteq> ''dark''
      \<and> ?im ''dark'' = None \<and> sample_extract ''dark'' = Inl (not_found ''dark'')
      \<and> theme_styles sample_extract ?im ''light'' \<noteq> None
      \<and> theme_styles sample_extract ?im ''mediumseagreen'' \<noteq> None
      \<and> ''light'' \<noteq> proto_key \<and> ''mediumseagreen'' \<noteq> proto_key"
    by (intro conjI h1 h2 h3 h4 h5 h6 h7 h8)
  from three prem
  have concl: "fst ` set (result (process_themes sample_extract ?im [''light'', ''dark'', ''mediumseagreen'']))
        = {''light'', ''mediumseagreen''}
      \<and> length (result (process_themes sample_extract ?im [''light'', ''dark'', ''mediumseagreen''])) = 2
      \<and> errors (process_themes sample_extract ?im [''light'', ''dark'', ''mediumseagreen''])
        = [\<lparr>theme = ''dark'', error = getErrorMessage (not_found ''dark'')\<rparr>]"
    by (rule mp)
  show ?thesis
    by (intro conjI h1 h4 h5 conjunct1 [OF concl] conjunct2 [OF conjunct2 [OF concl]])
qed

text \<open>
  Claim C2, as amended. When CSS is read, the names are processed in this order: the
  explicit names, then the referenced names, then the names of the inline themes,
  deduplicated keeping the first occurrence, if the CSS gives at least one referenced or
  inline name; the explicit list as it is, duplicates included, if the CSS gives none. The
  resolver is called for the processed names without inline definition, in order, and for
  no name with one. A processed name with an inline definition, other than
  \<open>__proto__\<close>, has the styles of the lookup in the collection.
\<close>

theorem main_merge_order:
  "main extractTheme formatHex themes cssPath (Some (Some cssContent)) = Extracted order st \<longrightarrow>
     order = (if extractThemeNamesFromCss cssContent = []
                  \<and> (extractInlineThemesFromCss formatHex cssContent :: 'n CssThemeData list) = []
              then themes
              else dedup_first (themes @ extractThemeNamesFromCss cssContent
                     @ map name (extractInlineThemesFromCss formatHex cssContent :: 'n CssThemeData list)))
     \<and> resolved st
         = filter (\<lambda>t. t \<notin> name ` set (extractInlineThemesFromCss formatHex cssContent :: 'n CssThemeData list)) order
     \<and> (\<forall>t\<in>name ` set (extractInlineThemesFromCss formatHex cssContent :: 'n CssThemeData list).
           t \<notin> set (resolved st))
     \<and> (\<forall>t s. inline_map (extractInlineThemesFromCss formatHex cssContent) t = Some s
           \<and> t \<in> set order \<and> t \<noteq> proto_key \<longrightarrow> map_of (result st) t = Some (s :: 'n style_value js_object))"
proof
  let ?names = "extractThemeNamesFromCss cssContent"
  let ?inl = "extractInlineThemesFromCss formatHex cssContent :: 'n CssThemeData list"
  assume "main extractTheme formatHex themes cssPath (Some (Some cssContent)) = Extracted order st"
  then have o: "order = merge_names themes ?names ?inl"
    and s: "st = process_themes extractTheme (inline_map ?inl) order"
    by (auto simp: main_def readCssFile_def)
  from o have o': "order = (if ?names = [] \<and> ?inl = [] then themes
              else dedup_first (themes @ ?names @ map name ?inl))"
    by (simp only: merge_names_eq)
  have none_iff: "inline_map ?inl t = None \<longleftrightarrow> t \<notin> name ` set ?inl" for t
    using dom_inline_map [of ?inl] domIff [of t "inline_map ?inl"] by blast
  have r: "resolved st = filter (\<lambda>t. t \<notin> name ` set ?inl) order"
    by (simp add: s process_themes_def fold_process_resolved none_iff)
  have res: "map_of (result st) t = Some s'"
    if "inline_map ?inl t = Some s'" "t \<in> set order" "t \<noteq> proto_key" for t s'
    using that by (simp add: s process_themes_result theme_styles_def)
  show "order = (if ?names = [] \<and> ?inl = [] then themes
              else dedup_first (themes @ ?names @ map name ?inl))
     \<and> resolved st = filter (\<lambda>t. t \<notin> name ` set ?inl) order
     \<and> (\<forall>t\<in>name ` set ?inl. t \<notin> set (resolved st))
     \<and> (\<forall>t s. inline_map ?inl t = Some s \<and> t \<in> set order \<and> t \<noteq> proto_key
           \<longrightarrow> map_of (result st) t = Some s)"
    using res o' r by auto
qed

theorem main_merge_order_witness:
  "main sample_extract sample_formatHex [] ''src/index.css'' (Some (Some css_both))
     = Extracted [''light'', ''dark'', ''mediumseagreen'']
         \<lparr>result =
            [(''light'',
              [(''color-scheme'', VString ''light''), (''primary'', VString ''hsl(none)''),
               (''radius-box'', VString ''1rem'')]),
             (''mediumseagreen'',
              [(''color-scheme'', VString ''dark''), (''base-100'', VString ''#edf7ef''),
               (''primary'', VString ''#ff0000'')])],
          errors = [\<lparr>theme = ''dark'', error = getErrorMessage (not_found ''dark'')\<rparr>],
          resolved = [''light'', ''dark'']\<rparr>
   \<and> extractThemeNamesFromCss css_both = [''light'', ''dark'']
   \<and> map name (extractInlineThemesFromCss sample_formatHex css_both :: unit CssThemeData list)
     = [''mediumseagreen'']
   \<and> [''light'', ''dark'', ''mediumseagreen'']
     = dedup_first ([] @ extractThemeNamesFromCss css_both
         @ map name (extractInlineThemesFromCss sample_formatHex css_both :: unit CssThemeData list))"
proof -
  let ?st = "\<lparr>result =
            [(''light'',
              [(''color-scheme'', VString ''light''), (''primary'', VString ''hsl(none)''),
               (''radius-box'', VString ''1rem'')]),
             (''mediumseagreen'',
              [(''color-scheme'', VString ''dark''), (''base-100'', VString ''#edf7ef''),
               (''primary'', VString ''#ff0000'')])],
          errors = [\<lparr>theme = ''dark'', error = getErrorMessage (not_found ''dark'')\<rparr>],
          resolved = [''light'', ''dark'']\<rparr> :: unit run_state"
  have m: "main sample_extract sample_formatHex [] ''src/index.css'' (Some (Some css_both))
     = Extracted [''light'', ''dark'', ''mediumseagreen''] ?st"
    by code_simp
  have n: "extractThemeNamesFromCss css_both = [''light'', ''dark'']" by code_simp
  have i: "map name (extractInlineThemesFromCss sample_formatHex css_both :: unit CssThemeData list)
     = [''mediumseagreen'']" by code_simp
  from main_merge_order [where extractTheme = sample_extract and formatHex = sample_formatHex
      and themes = "[]" and cssPath = "''src/index.css''" and cssContent = css_both
      and order = "[''light'', ''dark'', ''mediumseagreen'']" and st = ?st] m
  have "[''light'', ''dark'', ''mediumseagreen'']
     = (if extractThemeNamesFromCss css_both = []
            \<and> (extractInlineThemesFromCss sample_formatHex css_both :: unit CssThemeData list) = []
        then []
        else dedup_first ([] @ extractThemeNamesFromCss css_both
               @ map name (extractInlineThemesFromCss sample_formatHex css_both :: unit CssThemeData list)))"
    by blast
  with n have "[''light'', ''dark'', ''mediumseagreen'']
     = dedup_first ([] @ extractThemeNamesFromCss css_both
         @ map name (extractInlineThemesFromCss sample_formatHex css_both :: unit CssThemeData list))"
    by (simp split: if_splits)
  with m n i show ?thesis by blast
qed

text \<open>
  Claim C2 as stated fails: with the explicit names \<open>light, light\<close> and a CSS text without
  a theme, the names are processed as given, \<open>light\<close> twice, and the resolver is called
  twice; the deduplicated list is \<open>light\<close> once.
\<close>

theorem explicit_duplicates_survive:
  "main sample_extract sample_formatHex [''light'', ''light''] ''src/index.css'' (Some (Some css_plain))
     = Extracted [''light'', ''light'']
         \<lparr>result =
            [(''light'',
              [(''color-scheme'', VString ''light''), (''primary'', VString ''hsl(none)''),
               (''radius-box'', VString ''1rem'')])],
          errors = [],
          resolved = [''light'', ''light'']\<rparr>
   \<and> dedup_first ([''light'', ''light''] @ extractThemeNamesFromCss css_plain
         @ map name (extractInlineThemesFromCss sample_formatHex css_plain :: unit CssThemeData list))
     = [''light'']"
  by code_simp

section \<open>The claims on the CSS parsers\<close>

lemma first_some_None_iff: "first_some f ks = None \<longleftrightarrow> (\<forall>k\<in>set ks. f k = None)"
  by (induction ks) (auto split: option.splits)

lemma ws_not_dash: "is_ws c \<Longrightarrow> c \<noteq> CHR ''-''"
  by (auto simp: is_ws_def)

lemma takeWhile_nth_holds: "k < length (takeWhile P xs) \<Longrightarrow> P (xs ! k)"
  by (metis nth_mem set_takeWhileD takeWhile_nth)

lemma in_cls_Ws: "in_cls Ws = is_ws"
  by (rule ext) simp

lemma flag_at_iff:
  "rmatch flagRegex s \<noteq> None \<longleftrightarrow>
     0 < length (takeWhile is_ws s) \<and> prefix ''--'' (dropWhile is_ws s)"
proof -
  let ?n = "length (takeWhile is_ws s)"
  have inner: "prefix ''--'' (drop k s) \<longleftrightarrow> k = ?n \<and> prefix ''--'' (dropWhile is_ws s)"
    if k: "k \<in> set (rev [1..<Suc ?n])" for k
  proof (cases "k = ?n")
    case True
    then show ?thesis by (simp add: dropWhile_eq_drop)
  next
    case False
    with k have lt: "k < ?n" by auto
    then have w: "is_ws (s ! k)" by (rule takeWhile_nth_holds)
    from lt have "k < length s"
      using length_takeWhile_le [of is_ws s] by simp
    then have "drop k s = s ! k # drop (Suc k) s" by (simp add: Cons_nth_drop_Suc)
    with w ws_not_dash [of "s ! k"] have "\<not> prefix ''--'' (drop k s)" by auto
    with False show ?thesis by simp
  qed
  have "rmatch flagRegex s \<noteq> None \<longleftrightarrow> (\<exists>k\<in>set (rev [1..<Suc ?n]). prefix ''--'' (drop k s))"
    by (simp add: flagRegex_def first_some_None_iff in_cls_Ws del: set_rev set_upt upt_Suc)
  also have "\<dots> \<longleftrightarrow> (\<exists>k\<in>set (rev [1..<Suc ?n]). k = ?n \<and> prefix ''--'' (dropWhile is_ws s))"
    using inner by blast
  also have "\<dots> \<longleftrightarrow> 0 < ?n \<and> prefix ''--'' (dropWhile is_ws s)"
    by (cases "takeWhile is_ws s") auto
  finally show ?thesis .
qed

lemma before_first_match_flag: "before_first_match flagRegex s = spec_truncate_flag s"
proof (induction s)
  case Nil
  show ?case by simp
next
  case (Cons c cs)
  have iff: "rmatch flagRegex (c # cs) \<noteq> None \<longleftrightarrow> is_ws c \<and> prefix ''--'' (dropWhile is_ws cs)"
    unfolding flag_at_iff by (cases "is_ws c") simp_all
  show ?case
  proof (cases "rmatch flagRegex (c # cs)")
    case None
    with iff have "\<not> (is_ws c \<and> prefix ''--'' (dropWhile is_ws cs))" by simp
    with None Cons show ?thesis by simp
  next
    case (Some m)
    with iff have "is_ws c \<and> prefix ''--'' (dropWhile is_ws cs)" by simp
    with Some show ?thesis by simp
  qed
qed

declare themeNames_loop.simps [simp del] themes_loop.simps [simp del]
  matched_themes.simps [simp del] matched_blocks.simps [simp del]

lemma trimmed_trim: "trimmed (trim s)"
proof -
  let ?r = "dropWhile is_ws (rev (dropWhile is_ws s))"
  show ?thesis
  proof (cases "?r = []")
    case True
    then show ?thesis by (simp add: trimmed_def trim_def)
  next
    case False
    then have l: "\<not> is_ws (hd ?r)" by (rule hd_dropWhile)
    from False have ne: "dropWhile is_ws s \<noteq> []"
      by (metis dropWhile.simps(1) rev.simps(1))
    then have h: "\<not> is_ws (hd (dropWhile is_ws s))" by (rule hd_dropWhile)
    have "set ?r \<subseteq> set (rev (dropWhile is_ws s))" by (auto dest: set_dropWhileD)
    obtain ys where ys: "rev (dropWhile is_ws s) = takeWhile is_ws (rev (dropWhile is_ws s)) @ ?r"
      by simp
    have "last ?r = last (rev (dropWhile is_ws s))"
      using False ys by (metis last_appendR)
    then have "last ?r = hd (dropWhile is_ws s)" using ne by (simp add: last_rev)
    with h have "\<not> is_ws (last ?r)" by simp
    with l False show ?thesis by (simp add: trimmed_def trim_def hd_rev last_rev)
  qed
qed

lemma trim_trimmed: "trimmed s \<Longrightarrow> trim s = s"
proof (cases "s = []")
  case True
  then show ?thesis by (simp add: trim_def)
next
  case False
  assume "trimmed s"
  with False have h: "\<not> is_ws (hd s)" and l: "\<not> is_ws (last s)" by (simp_all add: trimmed_def)
  from False h have 1: "dropWhile is_ws s = s" by (cases s) simp_all
  from False obtain a as where r: "rev s = a # as" by (cases "rev s") simp_all
  with False have "a = last s" by (metis hd_rev list.sel(1))
  with l have "\<not> is_ws a" by simp
  then have "dropWhile is_ws (a # as) = a # as" by simp
  then have 2: "dropWhile is_ws (rev s) = rev s" by (simp only: r)
  show ?thesis by (simp add: trim_def 1 2)
qed

lemma truncate_no_trailing:
  "s = [] \<or> \<not> is_ws (last s) \<Longrightarrow>
     spec_truncate_flag s = [] \<or> \<not> is_ws (last (spec_truncate_flag s))"
proof (induction s)
  case Nil
  show ?case by simp
next
  case (Cons c cs)
  show ?case
  proof (cases "is_ws c \<and> prefix ''--'' (dropWhile is_ws cs)")
    case True
    then show ?thesis by simp
  next
    case stop: False
    show ?thesis
    proof (cases "spec_truncate_flag cs = []")
      case False
      from Cons.prems have "cs = [] \<or> \<not> is_ws (last cs)" by (auto split: if_splits)
      from Cons.IH [OF this] False stop show ?thesis by simp
    next
      case True
      have "\<not> is_ws c"
      proof (cases cs)
        case Nil
        with Cons.prems show ?thesis by simp
      next
        case (Cons d ds)
        with True have d: "is_ws d \<and> prefix ''--'' (dropWhile is_ws ds)"
          by (simp split: if_splits)
        show ?thesis
        proof
          assume "is_ws c"
          with stop have "\<not> prefix ''--'' (dropWhile is_ws cs)" by simp
          with d Cons show False by simp
        qed
      qed
      with True stop show ?thesis by simp
    qed
  qed
qed

lemma truncate_hd: "spec_truncate_flag s = [] \<or> hd (spec_truncate_flag s) = hd s"
  by (cases s) simp_all

lemma trimmed_truncate: "trimmed s \<Longrightarrow> trimmed (spec_truncate_flag s)"
  using truncate_no_trailing [of s] truncate_hd [of s]
  by (auto simp: trimmed_def)

lemma themes_of_spec: "themes_of themesString = spec_names_of themesString"
proof -
  have "trim (before_first_match flagRegex (trim t)) = spec_truncate_flag (trim t)" for t
    by (simp add: before_first_match_flag trim_trimmed trimmed_truncate trimmed_trim)
  then show ?thesis by (simp add: themes_of_def spec_names_of_def)
qed

lemma themeNames_loop_matched:
  "themeNames_loop css acc = acc @ concat (map themes_of (matched_themes css))"
proof (induction css acc rule: themeNames_loop.induct)
  case (1 css themeNames)
  show ?case
  proof (cases "exec_from pluginRegex css")
    case None
    then show ?thesis by (simp add: themeNames_loop.simps [of css] matched_themes.simps [of css])
  next
    case (Some m)
    obtain caps rest where m: "m = (caps, rest)" by (cases m)
    show ?thesis
    proof (cases "\<exists>x. caps = [x]")
      case True
      then obtain x where x: "caps = [x]" by blast
      from "1.IH" [OF Some m [symmetric] x]
      show ?thesis using Some m x
        by (simp add: themeNames_loop.simps [of css] matched_themes.simps [of css])
    next
      case False
      then show ?thesis using Some m
        by (cases caps; cases "tl caps")
          (auto simp: themeNames_loop.simps [of css] matched_themes.simps [of css])
    qed
  qed
qed

lemma extractThemeNames_spec: "extractThemeNamesFromCss css = spec_extractNames css"
proof -
  have "map themes_of = map spec_names_of" using themes_of_spec by (intro arg_cong [where f = map] ext)
  then show ?thesis
    by (simp add: extractThemeNamesFromCss_def spec_extractNames_def themeNames_loop_matched
      set_spread_dedup_first)
qed

lemma exec_from_includes: "exec_from (Lit l # r) s \<noteq> None \<Longrightarrow> str_includes s l"
  by (induction s) (auto split: if_splits option.splits)

lemma themes_loop_matched:
  "themes_loop fh css acc = fold (push_block fh) (matched_blocks css) acc"
proof (induction fh css acc rule: themes_loop.induct)
  case (1 fh css themes)
  show ?case
  proof (cases "exec_from themePluginRegex css")
    case None
    then show ?thesis by (simp add: themes_loop.simps [of fh css] matched_blocks.simps [of css])
  next
    case (Some m)
    obtain caps rest where m: "m = (caps, rest)" by (cases m)
    show ?thesis
    proof (cases "\<exists>x. caps = [x]")
      case True
      then obtain x where x: "caps = [x]" by blast
      from "1.IH" [OF Some m [symmetric] x]
      show ?thesis using Some m x
        by (simp add: themes_loop.simps [of fh css] matched_blocks.simps [of css])
    next
      case False
      then show ?thesis using Some m
        by (cases caps; cases "tl caps")
          (auto simp: themes_loop.simps [of fh css] matched_blocks.simps [of css])
    qed
  qed
qed

lemma parse_line_keys:
  "fst ` set (fst (parse_line line st))
     \<subseteq> fst ` set (fst st) \<union> {k. startsWith k ''--'' \<or> k = ''color-scheme''}"
  by (auto simp: parse_line_def Let_def keys_obj_set
      split: option.splits prod.splits list.splits if_splits)

lemma fold_parse_line_keys:
  "fst ` set (fst (fold parse_line ls st))
     \<subseteq> fst ` set (fst st) \<union> {k. startsWith k ''--'' \<or> k = ''color-scheme''}"
proof (induction ls arbitrary: st)
  case Nil
  show ?case by simp
next
  case (Cons l ls)
  from Cons.IH [of "parse_line l st"] parse_line_keys [of l st]
  show ?case by auto
qed

lemma parse_block_keys:
  "parse_block b = (raw, nm) \<Longrightarrow> \<forall>k\<in>fst ` set raw. startsWith k ''--'' \<or> k = ''color-scheme''"
proof -
  assume "parse_block b = (raw, nm)"
  then have "raw = fst (fold parse_line (split_char (CHR 0x0A) b) ([], []))"
    by (simp add: parse_block_def)
  with fold_parse_line_keys [of "split_char (CHR 0x0A) b" "([], [])"]
  have "fst ` set raw \<subseteq> {k. startsWith k ''--'' \<or> k = ''color-scheme''}" by simp
  then show ?thesis by blast
qed

lemma convertStyles_empty_iff:
  "convertStyles fh raw = [] \<longleftrightarrow> (\<forall>k\<in>fst ` set raw. cleanKey k = proto_key)"
proof -
  have "convertStyles fh raw = [] \<longleftrightarrow> fst ` set (convertStyles fh raw) = {}" by simp
  also have "\<dots> \<longleftrightarrow> (\<forall>k\<in>fst ` set raw. cleanKey k = proto_key)"
    unfolding keys_convertStyles by auto
  finally show ?thesis .
qed

text \<open>
  Claim C4. For every CSS text the result is the list of the names of the matched
  blocks, in match order, each item stripped and cut at its first flag marker, the empty
  ones dropped, deduplicated keeping the first occurrence. It is distinct and holds no
  empty name. A text without a match, in particular one without \<open>@plugin\<close>, gives the
  empty list; the function is total, so nothing is raised. The three examples of the
  specification evaluate as it says.
\<close>

theorem extractThemeNamesFromCss_contract:
  "extractThemeNamesFromCss css = dedup_first (concat (map spec_names_of (matched_themes css)))
   \<and> distinct (extractThemeNamesFromCss css)
   \<and> [] \<notin> set (extractThemeNamesFromCss css)
   \<and> (exec_from pluginRegex css = None \<longrightarrow> extractThemeNamesFromCss css = [])
   \<and> (\<not> str_includes css ''@plugin'' \<longrightarrow> extractThemeNamesFromCss css = [])
   \<and> extractThemeNamesFromCss css_reference = [''light'', ''dark'', ''forest'']
   \<and> extractThemeNamesFromCss css_duplicates = [''light'', ''dark'']
   \<and> extractThemeNamesFromCss css_plain = []"
proof -
  have spec: "extractThemeNamesFromCss css = dedup_first (concat (map spec_names_of (matched_themes css)))"
    using extractThemeNames_spec [of css] by (simp only: spec_extractNames_def)
  have d: "distinct (extractThemeNamesFromCss css)"
    by (simp only: spec distinct_dedup_first)
  have ne: "[] \<notin> set (extractThemeNamesFromCss css)"
    by (auto simp: spec set_dedup_first spec_names_of_def)
  have none: "extractThemeNamesFromCss css = []" if "exec_from pluginRegex css = None"
    using that by (simp add: spec matched_themes.simps [of css])
  have plain: "extractThemeNamesFromCss css = []" if "\<not> str_includes css ''@plugin''"
  proof -
    from that exec_from_includes [of "''@plugin''" _ css]
    have "exec_from pluginRegex css = None" unfolding pluginRegex_def by blast
    then show ?thesis by (rule none)
  qed
  have e1: "extractThemeNamesFromCss css_reference = [''light'', ''dark'', ''forest'']"
    by code_simp
  have e2: "extractThemeNamesFromCss css_duplicates = [''light'', ''dark'']"
    by code_simp
  have e3: "extractThemeNamesFromCss css_plain = []"
    by code_simp
  from spec d ne none plain e1 e2 e3 show ?thesis by blast
qed

theorem extractThemeNamesFromCss_contract_witness:
  "exec_from pluginRegex css_plain = None \<and> \<not> str_includes css_plain ''@plugin''
   \<and> extractThemeNamesFromCss css_plain = []
   \<and> matched_themes css_reference = [''light --default, dark --prefersdark, forest'']
   \<and> extractThemeNamesFromCss css_reference
     = dedup_first (concat (map spec_names_of [''light --default, dark --prefersdark, forest'']))"
proof -
  have h1: "exec_from pluginRegex css_plain = None" by code_simp
  have h2: "\<not> str_includes css_plain ''@plugin''" by code_simp
  have m: "matched_themes css_reference = [''light --default, dark --prefersdark, forest'']"
    by code_simp
  note fact = extractThemeNamesFromCss_contract [of css_plain]
  from fact h1 have r: "extractThemeNamesFromCss css_plain = []" by blast
  from extractThemeNamesFromCss_contract [of css_reference] m
  have s: "extractThemeNamesFromCss css_reference
     = dedup_first (concat (map spec_names_of [''light --default, dark --prefersdark, forest'']))"
    by simp
  from h1 h2 r m s show ?thesis by blast
qed

text \<open>
  Claim C5, as amended. The body of a matched block is parsed into a name and a working
  style map that holds its \<open>--\<close> properties and its \<open>color-scheme\<close>, nothing else. The
  block is emitted, with the converted map, if and only if the name is not empty and the
  working map has an entry; otherwise the list of themes is left as it was, and nothing is
  raised. Where no key of the working map is cleaned to \<open>__proto__\<close>, the working map has
  an entry exactly when the converted map has one, so that the block is emitted if and
  only if the name is not empty and the converted map has an entry. The result for a CSS
  text is what its matched blocks emit, in order; a block with a name only and a block with
  a \<open>--\<close> property but no name give nothing.
\<close>

theorem push_block_emits:
  "(parse_block blockContent = (raw, themeName) \<longrightarrow>
      push_block formatHex blockContent themes
        = (if themeName \<noteq> [] \<and> raw \<noteq> []
           then themes @ [\<lparr>name = themeName, styles = convertStyles formatHex raw\<rparr>]
           else themes)
      \<and> (\<forall>k\<in>fst ` set raw. startsWith k ''--'' \<or> k = ''color-scheme'')
      \<and> ((\<forall>k\<in>fst ` set raw. cleanKey k \<noteq> proto_key) \<longrightarrow>
           (push_block formatHex blockContent themes
              = themes @ [\<lparr>name = themeName, styles = convertStyles formatHex raw\<rparr>]
            \<longleftrightarrow> themeName \<noteq> [] \<and> convertStyles formatHex raw \<noteq> [])
           \<and> (push_block formatHex blockContent themes = themes
            \<longleftrightarrow> \<not> (themeName \<noteq> [] \<and> convertStyles formatHex raw \<noteq> []))))
   \<and> extractInlineThemesFromCss formatHex css
       = fold (push_block formatHex) (matched_blocks css) ([] :: 'n CssThemeData list)
   \<and> extractInlineThemesFromCss sample_formatHex css_name_only = ([] :: unit CssThemeData list)
   \<and> extractInlineThemesFromCss sample_formatHex css_no_name = ([] :: unit CssThemeData list)"
proof -
  have blk: "push_block formatHex blockContent themes
        = (if themeName \<noteq> [] \<and> raw \<noteq> []
           then themes @ [\<lparr>name = themeName, styles = convertStyles formatHex raw\<rparr>]
           else themes)
      \<and> (\<forall>k\<in>fst ` set raw. startsWith k ''--'' \<or> k = ''color-scheme'')
      \<and> ((\<forall>k\<in>fst ` set raw. cleanKey k \<noteq> proto_key) \<longrightarrow>
           (push_block formatHex blockContent themes
              = themes @ [\<lparr>name = themeName, styles = convertStyles formatHex raw\<rparr>]
            \<longleftrightarrow> themeName \<noteq> [] \<and> convertStyles formatHex raw \<noteq> [])
           \<and> (push_block formatHex blockContent themes = themes
            \<longleftrightarrow> \<not> (themeName \<noteq> [] \<and> convertStyles formatHex raw \<noteq> [])))"
    if p: "parse_block blockContent = (raw, themeName)"
  proof -
    have 1: "push_block formatHex blockContent themes
        = (if themeName \<noteq> [] \<and> raw \<noteq> []
           then themes @ [\<lparr>name = themeName, styles = convertStyles formatHex raw\<rparr>]
           else themes)"
      by (simp add: push_block_def p)
    have 2: "\<forall>k\<in>fst ` set raw. startsWith k ''--'' \<or> k = ''color-scheme''"
      using p by (rule parse_block_keys)
    have 3: "raw \<noteq> [] \<longleftrightarrow> convertStyles formatHex raw \<noteq> []"
      if "\<forall>k\<in>fst ` set raw. cleanKey k \<noteq> proto_key"
      using that by (cases raw) (auto simp: convertStyles_empty_iff)
    from 1 2 3 show ?thesis by auto
  qed
  have loop: "extractInlineThemesFromCss formatHex css
       = fold (push_block formatHex) (matched_blocks css) ([] :: 'n CssThemeData list)"
    by (simp add: extractInlineThemesFromCss_def themes_loop_matched)
  have e1: "extractInlineThemesFromCss sample_formatHex css_name_only = ([] :: unit CssThemeData list)"
    by code_simp
  have e2: "extractInlineThemesFromCss sample_formatHex css_no_name = ([] :: unit CssThemeData list)"
    by code_simp
  from blk loop e1 e2 show ?thesis by blast
qed

theorem push_block_emits_witness:
  "parse_block ''\<newline>  name: mediumseagreen;\<newline>  default: false;\<newline>  color-scheme: dark;\<newline>  --color-base-100: #edf7ef;\<newline>  --color-primary: rgb(255, 0, 0);\<newline>''
     = ([(''color-scheme'', VString ''dark''), (''--color-base-100'', VString ''#edf7ef''),
         (''--color-primary'', VString ''rgb(255, 0, 0)'')] :: unit style_value js_object,
        ''mediumseagreen'')
   \<and> push_block sample_formatHex ''\<newline>  name: mediumseagreen;\<newline>  default: false;\<newline>  color-scheme: dark;\<newline>  --color-base-100: #edf7ef;\<newline>  --color-primary: rgb(255, 0, 0);\<newline>'' []
     = [\<lparr>name = ''mediumseagreen'',
         styles = [(''color-scheme'', VString ''dark''), (''base-100'', VString ''#edf7ef''),
                   (''primary'', VString ''#ff0000'' :: unit style_value)]\<rparr>]"
proof -
  let ?b = "''\<newline>  name: mediumseagreen;\<newline>  default: false;\<newline>  color-scheme: dark;\<newline>  --color-base-100: #edf7ef;\<newline>  --color-primary: rgb(255, 0, 0);\<newline>''"
  let ?raw = "[(''color-scheme'', VString ''dark''), (''--color-base-100'', VString ''#edf7ef''),
         (''--color-primary'', VString ''rgb(255, 0, 0)'')] :: unit style_value js_object"
  have p: "parse_block ?b = (?raw, ''mediumseagreen'')" by code_simp
  have k: "\<forall>k\<in>fst ` set ?raw. cleanKey k \<noteq> proto_key" by code_simp
  have c: "convertStyles sample_formatHex ?raw
      = [(''color-scheme'', VString ''dark''), (''base-100'', VString ''#edf7ef''),
         (''primary'', VString ''#ff0000'')]" by code_simp
  note inst = push_block_emits [where blockContent = ?b and raw = ?raw
      and themeName = "''mediumseagreen''" and formatHex = sample_formatHex and themes = "[]"
      and css = "[]"]
  note fact = conjunct1 [OF inst]
  from fact p k have "push_block sample_formatHex ?b []
      = [] @ [\<lparr>name = ''mediumseagreen'', styles = convertStyles sample_formatHex ?raw\<rparr>]
    \<longleftrightarrow> ''mediumseagreen'' \<noteq> [] \<and> convertStyles sample_formatHex ?raw \<noteq> []"
    by blast
  then have "push_block sample_formatHex ?b []
      = [\<lparr>name = ''mediumseagreen'', styles = convertStyles sample_formatHex ?raw\<rparr>]"
    by (simp add: c)
  with p show ?thesis by (simp add: c)
qed

text \<open>
  Claim C5 as stated fails in two ways. A block with a name and a \<open>color-scheme\<close> but no
  \<open>--\<close> property is emitted, not discarded. And a block whose only property is
  \<open>--__proto__\<close> is emitted although its converted style map has no entry.
\<close>

theorem block_without_variables_is_emitted:
  "extractInlineThemesFromCss sample_formatHex css_color_scheme_only
     = [\<lparr>name = ''mytheme'', styles = [(''color-scheme'', VString ''dark'')]\<rparr> :: unit CssThemeData]
   \<and> extractInlineThemesFromCss sample_formatHex css_proto_key
     = [\<lparr>name = ''mytheme'', styles = []\<rparr> :: unit CssThemeData]"
  by code_simp

end
